theory Spec2Isabelle
  imports
    Main
    "HOL-Library.Sublist"
    "HOL-Library.Char_ord"
    "HOL-Library.List_Lexorder"
    "HOL-Library.AList"
begin

section \<open>Applytics: event recording, counters and timeseries\<close>

text \<open>
  A shallow embedding of the Applytics worker: the categorizer of \<^verbatim>\<open>src/utils.js\<close>,
  the statement builder of \<^verbatim>\<open>src/database.js\<close>, the event handlers of
  \<^verbatim>\<open>src/handlers/event.js\<close>, their earlier copies in \<^verbatim>\<open>src/api/events.js\<close>, and
  the timeseries handlers of \<^verbatim>\<open>src/api/timeseries.js\<close>. The handlers of
  \<^verbatim>\<open>src/handlers/timeseries.js\<close> run the same queries with one more, optional
  filter on the country; they are not modelled.

  A request is typed: a field holds a value of its documented type, is \<^verbatim>\<open>null\<close> or is
  missing. What the handlers do with a number where a string is expected, or with a
  store that fails, ends in the response \<open>500\<close> and is not modelled.

  JavaScript strings are modelled as \<^typ>\<open>string\<close>, a character being a code unit from
  U+0000 to U+00FF; text with other characters is outside the model. Strings are
  compared character by character; the order on strings is the lexicographic order of
  the character codes, which is what SQLite's \<^verbatim>\<open>ORDER BY\<close> on text (binary collation)
  and JavaScript's default \<^verbatim>\<open>Array.prototype.sort\<close> use.

  A number is an integer: the values of the specification are integers. A number of a
  request is a JavaScript number, a double, and the store adds it to a counter as a
  double (\<open>sql_add\<close> below). The totals of a query are sums over an INTEGER column, which
  are exact; the 64-bit range of that column is not modelled. A field that is
  \<^verbatim>\<open>null\<close> or absent is \<^const>\<open>None\<close>; where the code tells the two apart, as for the
  \<^verbatim>\<open>value\<close> of a request, the field has a type with both.
\<close>

subsection \<open>String operations of JavaScript\<close>

text \<open>\<^verbatim>\<open>s.startsWith(p)\<close>.\<close>

definition startsWith :: "string \<Rightarrow> string \<Rightarrow> bool" where
  "startsWith s p = prefix p s"

text \<open>\<^verbatim>\<open>s.includes(p)\<close>: \<open>p\<close> occurs in \<open>s\<close> at some position.\<close>

fun js_includes :: "string \<Rightarrow> string \<Rightarrow> bool" where
  "js_includes [] p = (p = [])"
| "js_includes (c # cs) p = (prefix p (c # cs) \<or> js_includes cs p)"

text \<open>
  \<^verbatim>\<open>s.split(sep)\<close> for a separator of one character: the pieces between the
  occurrences of the separator, of which there is always at least one.
\<close>

fun js_split :: "char \<Rightarrow> string \<Rightarrow> string list" where
  "js_split sep [] = [[]]"
| "js_split sep (c # cs) =
     (if c = sep then [] # js_split sep cs
      else (case js_split sep cs of
              [] \<Rightarrow> [[c]]
            | p # ps \<Rightarrow> (c # p) # ps))"

text \<open>
  \<^verbatim>\<open>s.split(sep, limit)\<close>: the string is split at every separator and the array is
  then cut to its first \<open>limit\<close> pieces. What follows them is dropped, not kept in the
  last piece.
\<close>

definition js_split_limit :: "char \<Rightarrow> nat \<Rightarrow> string \<Rightarrow> string list" where
  "js_split_limit sep limit s = take limit (js_split sep s)"

text \<open>
  \<^verbatim>\<open>s.trim()\<close> removes white space and line terminators from both ends. Of the
  characters up to U+00FF these are the space, the tab, the line feed, the vertical tab,
  the form feed, the carriage return and the no-break space U+00A0.
\<close>

definition is_space :: "char \<Rightarrow> bool" where
  "is_space c =
     (c \<in> set [CHR '' '', CHR 0x09, CHR 0x0A, CHR 0x0B, CHR 0x0C, CHR 0x0D, CHR 0xA0])"

definition trim :: "string \<Rightarrow> string" where
  "trim s = rev (dropWhile is_space (rev (dropWhile is_space s)))"

text \<open>
  \<^verbatim>\<open>xs.slice(start)\<close>: a negative \<open>start\<close> counts from the end of the array, and
  the start is clamped to the array.
\<close>

definition js_slice :: "int \<Rightarrow> 'a list \<Rightarrow> 'a list" where
  "js_slice start xs =
     (let len = int (length xs);
          k = (if start < 0 then max (len + start) 0 else min start len)
      in drop (nat k) xs)"

text \<open>The truthiness of a string that may be \<^verbatim>\<open>null\<close>: only a non-empty string is truthy.\<close>

fun truthy :: "string option \<Rightarrow> bool" where
  "truthy None = False"
| "truthy (Some s) = (s \<noteq> [])"

subsection \<open>The categorizer (\<^verbatim>\<open>determineCategory\<close>, src/utils.js)\<close>

definition determineCategory :: "string \<Rightarrow> string" where
  "determineCategory eventType =
     (if startsWith eventType ''purchase'' \<or> js_includes eventType ''payment''
           \<or> js_includes eventType ''subscription'' then ''revenue''
      else if eventType = ''install'' \<or> eventType = ''uninstall''
           \<or> js_includes eventType ''update'' then ''lifecycle''
      else if js_includes eventType ''view'' \<or> js_includes eventType ''screen''
           \<or> js_includes eventType ''page'' then ''engagement''
      else if js_includes eventType ''click'' \<or> js_includes eventType ''tap''
           \<or> js_includes eventType ''swipe'' then ''interaction''
      else if js_includes eventType ''error'' \<or> js_includes eventType ''crash''
           \<or> js_includes eventType ''exception'' then ''error''
      else if js_includes eventType ''user'' \<or> js_includes eventType ''account''
           \<or> js_includes eventType ''login'' then ''user''
      else ''general'')"

text \<open>
  The categorizer as the specification words it: a list of rules, each a condition on
  the event type and the category it gives, tried from the top; the first rule whose
  condition holds decides, and \<open>general\<close> is the seventh, unconditional rule. The
  conditions are stated with the library's \<^const>\<open>prefix\<close> and \<^const>\<open>sublist\<close>.
\<close>

definition categorize_rules :: "((string \<Rightarrow> bool) \<times> string) list" where
  "categorize_rules =
     [(\<lambda>s. prefix ''purchase'' s \<or> sublist ''payment'' s \<or> sublist ''subscription'' s,
         ''revenue''),
      (\<lambda>s. s = ''install'' \<or> s = ''uninstall'' \<or> sublist ''update'' s, ''lifecycle''),
      (\<lambda>s. sublist ''view'' s \<or> sublist ''screen'' s \<or> sublist ''page'' s, ''engagement''),
      (\<lambda>s. sublist ''click'' s \<or> sublist ''tap'' s \<or> sublist ''swipe'' s, ''interaction''),
      (\<lambda>s. sublist ''error'' s \<or> sublist ''crash'' s \<or> sublist ''exception'' s, ''error''),
      (\<lambda>s. sublist ''user'' s \<or> sublist ''account'' s \<or> sublist ''login'' s, ''user'')]"

fun first_match :: "((string \<Rightarrow> bool) \<times> string) list \<Rightarrow> string \<Rightarrow> string" where
  "first_match [] s = ''general''"
| "first_match ((cond, category) # rules) s =
     (if cond s then category else first_match rules s)"

definition categorize_spec :: "string \<Rightarrow> string" where
  "categorize_spec s = first_match categorize_rules s"

subsection \<open>The two tables (schema.sql)\<close>

text \<open>
  A row of \<^verbatim>\<open>events\<close> and a row of \<^verbatim>\<open>stats\<close>. The columns \<^verbatim>\<open>qualifier\<close> and
  \<^verbatim>\<open>country\<close> may be NULL, and so may the two \<^verbatim>\<open>value\<close> columns, to which the
  handlers bind the \<^verbatim>\<open>value\<close> of the request, a number or \<^verbatim>\<open>null\<close>. The handlers always
  bind a string to the category columns. A number is an integer here: the values of
  the specification are integers.
\<close>

record event_row =
  ev_id :: nat
  ev_app_id :: string
  ev_event_type :: string
  ev_event_category :: string
  ev_qualifier :: "string option"
  ev_value :: "int option"
  ev_timestamp :: int
  ev_country :: "string option"

record stat_row =
  st_id :: nat
  st_app_id :: string
  st_metric :: string
  st_category :: string
  st_value :: "int option"
  st_last_updated :: int

record database =
  db_events :: "event_row list"
  db_stats :: "stat_row list"

definition empty_db :: database where
  "empty_db = \<lparr>db_events = [], db_stats = []\<rparr>"

text \<open>
  The id of a new row of a table with an \<^verbatim>\<open>INTEGER PRIMARY KEY\<close>: one more than the
  largest id in the table, 1 in an empty table.
\<close>

definition next_rowid :: "nat list \<Rightarrow> nat" where
  "next_rowid ids = fold max ids 0 + 1"

subsection \<open>Prepared statements and the batch (src/database.js)\<close>

text \<open>
  The two statements the code prepares, with the parameters it binds, in the order of
  the \<^verbatim>\<open>bind\<close> call. \<open>InsertEvent\<close> is
  \<^verbatim>\<open>INSERT INTO events (app_id, event_type, event_category, qualifier, value, timestamp, country)\<close>;
  \<open>UpsertStat\<close> is
  \<^verbatim>\<open>INSERT INTO stats (app_id, metric, category, value, last_updated) VALUES (?, ?, ?, ?, ?)
  ON CONFLICT (app_id, metric) DO UPDATE SET value = value + ?, last_updated = ?\<close>.
\<close>

datatype statement =
    InsertEvent string string string "string option" "int option" int "string option"
  | UpsertStat string string string "int option" int "int option" int

text \<open>
  The key of the counter an event counts for: the expression
  \<^verbatim>\<open>qualifier ? `${event_type}.${qualifier}` : event_type\<close> of \<^verbatim>\<open>createEventStatements\<close>,
  which the handlers repeat for their responses. The test is the truthiness of the
  qualifier.
\<close>

definition metric_key :: "string \<Rightarrow> string option \<Rightarrow> string" where
  "metric_key event_type qualifier =
     (case qualifier of
        None \<Rightarrow> event_type
      | Some q \<Rightarrow> if truthy qualifier then event_type @ ''.'' @ q else event_type)"

definition createEventStatements ::
  "string \<Rightarrow> string \<Rightarrow> string \<Rightarrow> string option \<Rightarrow> int option \<Rightarrow> int \<Rightarrow> string option
     \<Rightarrow> statement list" where
  "createEventStatements app_id event_type event_category qualifier v timestamp country =
     (let metric = metric_key event_type qualifier;
          eventStmt = InsertEvent app_id event_type event_category qualifier v timestamp country;
          statsStmt = UpsertStat app_id metric event_category v timestamp v timestamp
      in [eventStmt, statsStmt])"

text \<open>
  The arithmetic of \<^verbatim>\<open>value = value + ?\<close>. The number bound to the parameter is a
  JavaScript number, a double, and the sum is the sum of doubles: exact while its
  magnitude is at most \<open>2^53\<close>, and beyond that the nearest double, the even one of two
  equally near. \<open>bit_length\<close> is the number of binary digits of a natural number. Sums
  beyond the largest double are not modelled. A sum with NULL is NULL.
\<close>

fun bit_length :: "nat \<Rightarrow> nat" where
  "bit_length n = (if n = 0 then 0 else Suc (bit_length (n div 2)))"

declare bit_length.simps [simp del]

definition round_double :: "int \<Rightarrow> int" where
  "round_double x =
     (if \<bar>x\<bar> \<le> 2 ^ 53 then x
      else
        let a = \<bar>x\<bar>;
            ulp = 2 ^ (bit_length (nat a) - 53);
            q = a div ulp;
            r = a mod ulp;
            q' = (if 2 * r > ulp \<or> (2 * r = ulp \<and> odd q) then q + 1 else q)
        in sgn x * (q' * ulp))"

definition double_add :: "int \<Rightarrow> int \<Rightarrow> int" where
  "double_add x y = round_double (x + y)"

definition sql_add :: "int option \<Rightarrow> int option \<Rightarrow> int option" where
  "sql_add a b =
     (case a of
        None \<Rightarrow> None
      | Some x \<Rightarrow> (case b of None \<Rightarrow> None | Some y \<Rightarrow> Some (double_add x y)))"

text \<open>
  What the store does with one statement. The upsert finds the row of the unique key
  \<open>(app_id, metric)\<close>: when there is none it inserts the five values; when there is one it
  runs the \<^verbatim>\<open>DO UPDATE SET\<close> clause, which assigns \<^verbatim>\<open>value\<close> and \<^verbatim>\<open>last_updated\<close>
  and no other column.
\<close>

definition stat_has_key :: "string \<Rightarrow> string \<Rightarrow> stat_row \<Rightarrow> bool" where
  "stat_has_key app_id metric s = (st_app_id s = app_id \<and> st_metric s = metric)"

fun exec_statement :: "database \<Rightarrow> statement \<Rightarrow> database" where
  "exec_statement db (InsertEvent app_id event_type event_category qualifier v timestamp country) =
     db\<lparr>db_events := db_events db @
          [\<lparr>ev_id = next_rowid (map ev_id (db_events db)), ev_app_id = app_id,
            ev_event_type = event_type, ev_event_category = event_category,
            ev_qualifier = qualifier, ev_value = v, ev_timestamp = timestamp,
            ev_country = country\<rparr>]\<rparr>"
| "exec_statement db (UpsertStat app_id metric category v last_updated v_add last_updated_new) =
     (if list_ex (stat_has_key app_id metric) (db_stats db)
      then db\<lparr>db_stats :=
             map (\<lambda>s. if stat_has_key app_id metric s
                       then s\<lparr>st_value := sql_add (st_value s) v_add,
                              st_last_updated := last_updated_new\<rparr>
                       else s)
                 (db_stats db)\<rparr>
      else db\<lparr>db_stats := db_stats db @
             [\<lparr>st_id = next_rowid (map st_id (db_stats db)), st_app_id = app_id,
               st_metric = metric, st_category = category, st_value = v,
               st_last_updated = last_updated\<rparr>]\<rparr>)"

text \<open>
  \<^verbatim>\<open>db.batch(statements)\<close>: the statements run in order, in one transaction. With the
  typed rows above no statement can fail, so the batch always commits. (A timestamp
  that is an explicit \<^verbatim>\<open>null\<close> would violate \<^verbatim>\<open>NOT NULL\<close>: the batch then fails as a
  whole and the handler answers 500. That request is not modelled.)
\<close>

definition db_batch :: "database \<Rightarrow> statement list \<Rightarrow> database" where
  "db_batch db statements = foldl exec_statement db statements"

text \<open>
  \<^verbatim>\<open>SELECT value FROM stats WHERE app_id = ? AND metric = ?\<close> with \<^verbatim>\<open>.first()\<close>: the first
  matching row, or \<^verbatim>\<open>null\<close>.
\<close>

definition select_stat :: "database \<Rightarrow> string \<Rightarrow> string \<Rightarrow> stat_row option" where
  "select_stat db app_id metric = find (stat_has_key app_id metric) (db_stats db)"

subsection \<open>The event handlers (src/handlers/event.js)\<close>

text \<open>
  \<^verbatim>\<open>errorResponse(message, status)\<close>: the handlers report every failure as a message
  with an HTTP status. The specification's ValidationError is the response
  \<open>Missing event_type ...\<close>, its CapacityError the response \<open>Batch size exceeds maximum (100)\<close>.
\<close>

datatype error_response = ErrorResponse string nat

text \<open>
  The body of a tracking request. \<open>None\<close> in \<open>td_event_type\<close>, \<open>td_qualifier\<close> and
  \<open>td_category\<close> is a field that is absent or \<^verbatim>\<open>null\<close>; in \<open>td_timestamp\<close> it is an
  absent field, which takes the default (an explicit \<^verbatim>\<open>null\<close> there is refused by the
  store, the column being \<^verbatim>\<open>NOT NULL\<close>). For \<open>td_value\<close> and \<open>td_country\<close> the two
  differ, since a destructuring default replaces an absent field only: \<open>None\<close> is an
  absent field (the value is 1, the country that of the request), \<open>Some None\<close> an
  explicit \<^verbatim>\<open>null\<close>, which stays \<^verbatim>\<open>null\<close> and is bound as NULL.
\<close>

record track_data =
  td_event_type :: "string option"
  td_qualifier :: "string option"
  td_value :: "int option option"
  td_category :: "string option"
  td_timestamp :: "int option"
  td_country :: "string option option"

record track_response =
  tr_app_id :: string
  tr_metric :: string
  tr_category :: string
  tr_value :: "int option"
  tr_timestamp :: int
  tr_country :: "string option"

text \<open>\<^verbatim>\<open>a || b\<close> for a string \<open>a\<close> that may be \<^verbatim>\<open>null\<close>.\<close>

definition or_else :: "string option \<Rightarrow> string \<Rightarrow> string" where
  "or_else a b = (case a of None \<Rightarrow> b | Some s \<Rightarrow> if s = [] then b else s)"

text \<open>\<^verbatim>\<open>request.cf?.country || null\<close>.\<close>

definition or_null :: "string option \<Rightarrow> string option" where
  "or_null a = (if truthy a then a else None)"

text \<open>
  \<^verbatim>\<open>handleTrackEvent\<close>. \<open>now\<close> is \<^verbatim>\<open>Math.floor(Date.now() / 1000)\<close>, \<open>cf_country\<close> is
  \<^verbatim>\<open>request.cf?.country\<close>. The result is the response and the store after the call.
  \<^verbatim>\<open>result?.value || value\<close> takes the request's value when no row is found and also
  when the row's value is 0 or \<^verbatim>\<open>null\<close>, which are falsy.
\<close>

definition handleTrackEvent ::
  "int \<Rightarrow> string option \<Rightarrow> database \<Rightarrow> string \<Rightarrow> track_data
     \<Rightarrow> (error_response + track_response) \<times> database" where
  "handleTrackEvent now cf_country db app_id data =
     (let qualifier = td_qualifier data;
          v = (case td_value data of None \<Rightarrow> Some 1 | Some x \<Rightarrow> x);
          category = td_category data;
          timestamp = (case td_timestamp data of None \<Rightarrow> now | Some t \<Rightarrow> t);
          country = (case td_country data of None \<Rightarrow> or_null cf_country | Some c \<Rightarrow> c)
      in case td_event_type data of
           None \<Rightarrow> (Inl (ErrorResponse ''Missing event_type'' 400), db)
         | Some event_type \<Rightarrow>
             if event_type = [] then (Inl (ErrorResponse ''Missing event_type'' 400), db)
             else
               let event_category = or_else category (determineCategory event_type);
                   statements = createEventStatements app_id event_type event_category
                                  qualifier v timestamp country;
                   db' = db_batch db statements;
                   metric = metric_key event_type qualifier;
                   result = select_stat db' app_id metric;
                   currentValue = (case result of
                                     None \<Rightarrow> v
                                   | Some row \<Rightarrow>
                                       (case st_value row of
                                          None \<Rightarrow> v
                                        | Some n \<Rightarrow> if n = 0 then v else Some n))
               in (Inr \<lparr>tr_app_id = app_id, tr_metric = metric, tr_category = event_category,
                        tr_value = currentValue, tr_timestamp = timestamp,
                        tr_country = country\<rparr>,
                   db'))"

record batch_result =
  res_event_type :: string
  res_qualifier :: "string option"
  res_metric :: string
  res_category :: string
  res_country :: "string option"

record batch_response =
  br_app_id :: string
  br_processed :: nat
  br_events :: "batch_result list"

text \<open>
  The loop of \<^verbatim>\<open>handleBatchTrackEvents\<close> over the items, with the statements and the
  results collected so far. An item without an event type ends the handler at once.
\<close>

fun batch_loop ::
  "int \<Rightarrow> string option \<Rightarrow> string \<Rightarrow> track_data list \<Rightarrow> statement list \<Rightarrow> batch_result list
     \<Rightarrow> error_response + statement list \<times> batch_result list" where
  "batch_loop defaultTimestamp defaultCountry app_id [] statements results =
     Inr (statements, results)"
| "batch_loop defaultTimestamp defaultCountry app_id (event # rest) statements results =
     (case td_event_type event of
        None \<Rightarrow> Inl (ErrorResponse ''Missing event_type in batch item'' 400)
      | Some event_type \<Rightarrow>
          if event_type = [] then Inl (ErrorResponse ''Missing event_type in batch item'' 400)
          else
            let qualifier = td_qualifier event;
                v = (case td_value event of None \<Rightarrow> Some 1 | Some x \<Rightarrow> x);
                category = td_category event;
                timestamp = (case td_timestamp event of None \<Rightarrow> defaultTimestamp | Some t \<Rightarrow> t);
                country = (case td_country event of None \<Rightarrow> defaultCountry | Some c \<Rightarrow> c);
                event_category = or_else category (determineCategory event_type);
                eventStatements = createEventStatements app_id event_type event_category
                                    qualifier v timestamp country;
                metric = metric_key event_type qualifier
            in batch_loop defaultTimestamp defaultCountry app_id rest
                 (statements @ eventStatements)
                 (results @ [\<lparr>res_event_type = event_type, res_qualifier = qualifier,
                              res_metric = metric, res_category = event_category,
                              res_country = country\<rparr>]))"

text \<open>
  \<^verbatim>\<open>handleBatchTrackEvents\<close>. \<open>events\<close> is \<^verbatim>\<open>data.events\<close>, \<open>None\<close> when it is not an
  array. The batch runs only after the loop has gone through every item.
\<close>

definition handleBatchTrackEvents ::
  "int \<Rightarrow> string option \<Rightarrow> database \<Rightarrow> string \<Rightarrow> track_data list option
     \<Rightarrow> (error_response + batch_response) \<times> database" where
  "handleBatchTrackEvents now cf_country db app_id events =
     (case events of
        None \<Rightarrow> (Inl (ErrorResponse ''Missing or empty events array'' 400), db)
      | Some evs \<Rightarrow>
          if length evs = 0 then (Inl (ErrorResponse ''Missing or empty events array'' 400), db)
          else if length evs > 100
          then (Inl (ErrorResponse ''Batch size exceeds maximum (100)'' 400), db)
          else
            (case batch_loop now (or_null cf_country) app_id evs [] [] of
               Inl e \<Rightarrow> (Inl e, db)
             | Inr (statements, results) \<Rightarrow>
                 (Inr \<lparr>br_app_id = app_id, br_processed = length results, br_events = results\<rparr>,
                  db_batch db statements)))"

text \<open>
  Calls of the recorder, and the store after a sequence of them. Each call carries the
  clock and the country of its request.
\<close>

datatype call =
    Record int "string option" string track_data
  | RecordBatch int "string option" string "track_data list option"

fun apply_call :: "database \<Rightarrow> call \<Rightarrow> database" where
  "apply_call db (Record now cf_country app_id data) =
     snd (handleTrackEvent now cf_country db app_id data)"
| "apply_call db (RecordBatch now cf_country app_id events) =
     snd (handleBatchTrackEvents now cf_country db app_id events)"

definition run_calls :: "call list \<Rightarrow> database" where
  "run_calls calls = foldl apply_call empty_db calls"

subsection \<open>The event handlers of src/api/events.js\<close>

text \<open>
  The earlier copies of the two handlers. They prepare the same two statements in
  place, without the \<^verbatim>\<open>country\<close> column, which the store then leaves NULL, and their
  responses have no country.
\<close>

definition handleTrackEvent_api ::
  "int \<Rightarrow> database \<Rightarrow> string \<Rightarrow> track_data
     \<Rightarrow> (error_response + track_response) \<times> database" where
  "handleTrackEvent_api now db app_id data =
     (let qualifier = td_qualifier data;
          v = (case td_value data of None \<Rightarrow> Some 1 | Some x \<Rightarrow> x);
          category = td_category data;
          timestamp = (case td_timestamp data of None \<Rightarrow> now | Some t \<Rightarrow> t)
      in case td_event_type data of
           None \<Rightarrow> (Inl (ErrorResponse ''Missing event_type'' 400), db)
         | Some event_type \<Rightarrow>
             if event_type = [] then (Inl (ErrorResponse ''Missing event_type'' 400), db)
             else
               let event_category = or_else category (determineCategory event_type);
                   metric = metric_key event_type qualifier;
                   stmt1 = InsertEvent app_id event_type event_category qualifier v timestamp None;
                   stmt2 = UpsertStat app_id metric event_category v timestamp v timestamp;
                   db' = db_batch db [stmt1, stmt2];
                   result = select_stat db' app_id metric;
                   currentValue = (case result of
                                     None \<Rightarrow> v
                                   | Some row \<Rightarrow>
                                       (case st_value row of
                                          None \<Rightarrow> v
                                        | Some n \<Rightarrow> if n = 0 then v else Some n))
               in (Inr \<lparr>tr_app_id = app_id, tr_metric = metric, tr_category = event_category,
                        tr_value = currentValue, tr_timestamp = timestamp, tr_country = None\<rparr>,
                   db'))"

fun batch_loop_api ::
  "int \<Rightarrow> string \<Rightarrow> track_data list \<Rightarrow> statement list \<Rightarrow> batch_result list
     \<Rightarrow> error_response + statement list \<times> batch_result list" where
  "batch_loop_api defaultTimestamp app_id [] statements results = Inr (statements, results)"
| "batch_loop_api defaultTimestamp app_id (event # rest) statements results =
     (case td_event_type event of
        None \<Rightarrow> Inl (ErrorResponse ''Missing event_type in batch item'' 400)
      | Some event_type \<Rightarrow>
          if event_type = [] then Inl (ErrorResponse ''Missing event_type in batch item'' 400)
          else
            let qualifier = td_qualifier event;
                v = (case td_value event of None \<Rightarrow> Some 1 | Some x \<Rightarrow> x);
                category = td_category event;
                timestamp = (case td_timestamp event of None \<Rightarrow> defaultTimestamp | Some t \<Rightarrow> t);
                event_category = or_else category (determineCategory event_type);
                metric = metric_key event_type qualifier
            in batch_loop_api defaultTimestamp app_id rest
                 (statements @
                    [InsertEvent app_id event_type event_category qualifier v timestamp None] @
                    [UpsertStat app_id metric event_category v timestamp v timestamp])
                 (results @ [\<lparr>res_event_type = event_type, res_qualifier = qualifier,
                              res_metric = metric, res_category = event_category,
                              res_country = None\<rparr>]))"

definition handleBatchTrackEvents_api ::
  "int \<Rightarrow> database \<Rightarrow> string \<Rightarrow> track_data list option
     \<Rightarrow> (error_response + batch_response) \<times> database" where
  "handleBatchTrackEvents_api now db app_id events =
     (case events of
        None \<Rightarrow> (Inl (ErrorResponse ''Missing or empty events array'' 400), db)
      | Some evs \<Rightarrow>
          if length evs = 0 then (Inl (ErrorResponse ''Missing or empty events array'' 400), db)
          else if length evs > 100
          then (Inl (ErrorResponse ''Batch size exceeds maximum (100)'' 400), db)
          else
            (case batch_loop_api now app_id evs [] [] of
               Inl e \<Rightarrow> (Inl e, db)
             | Inr (statements, results) \<Rightarrow>
                 (Inr \<lparr>br_app_id = app_id, br_processed = length results, br_events = results\<rparr>,
                  db_batch db statements)))"

subsection \<open>The timeseries handlers (src/api/timeseries.js)\<close>

text \<open>
  The time grouping expression of a period, \<^verbatim>\<open>strftime(format, datetime(timestamp, 'unixepoch'))\<close>,
  given by its format; an unknown period has none. SQLite's \<^verbatim>\<open>strftime\<close> is the
  store's, not the repository's: the handlers below take it as the parameter
  \<open>strftime\<close>, from a format and a time in unix seconds to the text of the bucket.
\<close>

definition timeGroup_of :: "string \<Rightarrow> string option" where
  "timeGroup_of period =
     (if period = ''hour'' then Some ''%Y-%m-%d %H:00:00''
      else if period = ''day'' then Some ''%Y-%m-%d''
      else if period = ''week'' then Some ''%Y-%W''
      else if period = ''month'' then Some ''%Y-%m''
      else None)"

text \<open>
  Splitting the requested metric into event type and qualifier:
  \<^verbatim>\<open>[event_type, qualifier] = metric.split('.', 2)\<close> when the metric has a dot. A
  metric with a dot splits into two pieces at least, so the last case, an array shorter
  than two, does not arise (lemma \<open>js_split_two\<close> below).
\<close>

definition split_metric :: "string \<Rightarrow> string \<times> string option" where
  "split_metric metric =
     (if CHR ''.'' \<in> set metric
      then (case js_split_limit CHR ''.'' 2 metric of
              event_type # qualifier # _ \<Rightarrow> (event_type, Some qualifier)
            | _ \<Rightarrow> (metric, None))
      else (metric, None))"

text \<open>
  The \<^verbatim>\<open>WHERE\<close> clause of the query. \<^verbatim>\<open>qualifier = ?\<close> is never true of a row whose
  qualifier is NULL; \<^verbatim>\<open>qualifier IS NULL\<close> is true of those rows only.
\<close>

definition where_clause ::
  "string \<Rightarrow> string \<Rightarrow> int \<Rightarrow> int \<Rightarrow> string option \<Rightarrow> event_row \<Rightarrow> bool" where
  "where_clause app_id event_type fromDate toDate qualifier e =
     (ev_app_id e = app_id \<and> ev_event_type e = event_type
      \<and> ev_timestamp e \<ge> fromDate \<and> ev_timestamp e \<le> toDate
      \<and> (case qualifier of
             Some q \<Rightarrow> ev_qualifier e = Some q
           | None \<Rightarrow> ev_qualifier e = None))"

record data_point =
  dp_time_period :: string
  dp_total :: "int option"

text \<open>\<^verbatim>\<open>SUM(value)\<close>: the sum of the values that are not NULL, and NULL when there is none.\<close>

definition sql_sum :: "int option list \<Rightarrow> int option" where
  "sql_sum vs =
     (if list_all (\<lambda>v. v = None) vs then None
      else Some (sum_list (map (\<lambda>v. case v of None \<Rightarrow> 0 | Some n \<Rightarrow> n) vs)))"

text \<open>
  \<^verbatim>\<open>SELECT timeGroup AS time_period, SUM(value) AS total ... GROUP BY time_period ORDER BY time_period\<close>
  over the selected rows: one row for each bucket that has an event, with the sum of
  the values of its events, in ascending order of the bucket's text.
\<close>

definition group_by_time_period :: "(int \<Rightarrow> string) \<Rightarrow> event_row list \<Rightarrow> data_point list" where
  "group_by_time_period time_period rows =
     map (\<lambda>k. \<lparr>dp_time_period = k,
               dp_total = sql_sum (map ev_value
                            (filter (\<lambda>e. time_period (ev_timestamp e) = k) rows))\<rparr>)
         (sort (remdups (map (\<lambda>e. time_period (ev_timestamp e)) rows)))"

text \<open>\<^verbatim>\<open>LIMIT ?\<close>: a negative limit is no limit.\<close>

definition sql_limit :: "int \<Rightarrow> 'a list \<Rightarrow> 'a list" where
  "sql_limit n rows = (if n < 0 then rows else take (nat n) rows)"

text \<open>
  The query parameters of a timeseries request, as \<^verbatim>\<open>url.searchParams.get\<close> gives them.
  \<open>rq_limit\<close>, \<open>rq_from\<close> and \<open>rq_to\<close> are the numbers that \<^verbatim>\<open>parseInt\<close> and
  \<^verbatim>\<open>new Date\<close> read from the parameter, \<open>None\<close> when the parameter is absent or empty.
\<close>

record timeseries_request =
  rq_metric :: "string option"
  rq_metrics :: "string option"
  rq_period :: "string option"
  rq_limit :: "int option"
  rq_from :: "int option"
  rq_to :: "int option"

record timeseries_response =
  ts_app_id :: string
  ts_metric :: string
  ts_period :: string
  ts_from :: int
  ts_to :: int
  ts_data :: "data_point list"

definition handleTimeseriesQuery ::
  "(string \<Rightarrow> int \<Rightarrow> string) \<Rightarrow> int \<Rightarrow> database \<Rightarrow> string \<Rightarrow> timeseries_request
     \<Rightarrow> error_response + timeseries_response" where
  "handleTimeseriesQuery strftime now db app_id rq =
     (case rq_metric rq of
        None \<Rightarrow> Inl (ErrorResponse ''Missing metric parameter'' 400)
      | Some metric \<Rightarrow>
          if metric = [] then Inl (ErrorResponse ''Missing metric parameter'' 400)
          else
            let period = or_else (rq_period rq) ''day'';
                limit = (case rq_limit rq of None \<Rightarrow> 30 | Some n \<Rightarrow> n);
                fromDate = (case rq_from rq of None \<Rightarrow> now - 60 * 60 * 24 * 30 | Some t \<Rightarrow> t);
                toDate = (case rq_to rq of None \<Rightarrow> now | Some t \<Rightarrow> t);
                (event_type, qualifier) = split_metric metric
            in (case timeGroup_of period of
                  None \<Rightarrow> Inl (ErrorResponse ''Invalid period parameter'' 400)
                | Some timeGroup \<Rightarrow>
                    let results =
                          sql_limit limit
                            (rev (group_by_time_period (strftime timeGroup)
                                    (filter (where_clause app_id event_type fromDate toDate qualifier)
                                       (db_events db))))
                    in Inr \<lparr>ts_app_id = app_id, ts_metric = metric, ts_period = period,
                            ts_from = fromDate, ts_to = toDate, ts_data = rev results\<rparr>))"

text \<open>
  A JSON value of a combined data point, and the data point as the object the code
  builds: the keys in the order of their first assignment, a later assignment to a key
  replacing its value (\<^const>\<open>AList.update\<close>). JavaScript lists keys that are array
  indices before the others; the order of the keys carries no meaning in the response,
  and the general lemmas read a data point as a map (\<^const>\<open>map_of\<close>).
\<close>

datatype json_value = JStr string | JNum int | JNull

type_synonym js_object = "(string \<times> json_value) list"

text \<open>\<^verbatim>\<open>allTimePeriods.add(x)\<close> on a \<^verbatim>\<open>Set\<close>, kept in insertion order.\<close>

definition set_add :: "'a \<Rightarrow> 'a list \<Rightarrow> 'a list" where
  "set_add x xs = (if x \<in> set xs then xs else xs @ [x])"

record comparison_response =
  cr_app_id :: string
  cr_metrics :: "string list"
  cr_period :: string
  cr_from :: int
  cr_to :: int
  cr_data :: "js_object list"

text \<open>The query of the loop body of \<^verbatim>\<open>handleComparisonQuery\<close> for one metric.\<close>

definition metric_results ::
  "(int \<Rightarrow> string) \<Rightarrow> database \<Rightarrow> string \<Rightarrow> int \<Rightarrow> int \<Rightarrow> string \<Rightarrow> data_point list" where
  "metric_results time_period db app_id fromDate toDate metric =
     (let (event_type, qualifier) = split_metric metric
      in group_by_time_period time_period
           (filter (where_clause app_id event_type fromDate toDate qualifier) (db_events db)))"

text \<open>
  The object \<^verbatim>\<open>results\<close>, which starts as \<^verbatim>\<open>{}\<close>: its own properties, and the array
  that is its prototype, if one has been set. The assignment \<^verbatim>\<open>results[metric] = rows\<close>
  creates the property \<open>metric\<close> or replaces its value, for every key but \<^verbatim>\<open>__proto__\<close>:
  that key is the accessor of \<^verbatim>\<open>Object.prototype\<close>, and assigning the array to it makes
  the array the prototype of the object and creates no property.
\<close>

record results_object =
  ro_own :: "(string \<times> data_point list) list"
  ro_proto :: "data_point list option"

definition results_assign :: "string \<Rightarrow> data_point list \<Rightarrow> results_object \<Rightarrow> results_object" where
  "results_assign metric rows results =
     (if metric = ''__proto__'' then results\<lparr>ro_proto := Some rows\<rparr>
      else results\<lparr>ro_own := AList.update metric rows (ro_own results)\<rparr>)"

text \<open>
  \<^verbatim>\<open>for (const metric in results)\<close> visits the own keys and then the enumerable keys of
  the prototype that no own key hides. Those of an array are its indices, written as
  decimal numerals; under such a key \<^verbatim>\<open>results[metric]\<close> is a row of the array, which
  is not iterable, so that the loop over it throws and the handler answers \<open>500\<close>.
\<close>

fun index_key :: "nat \<Rightarrow> string" where
  "index_key n =
     (if n < 10 then [''0123456789'' ! n]
      else index_key (n div 10) @ [''0123456789'' ! (n mod 10)])"

declare index_key.simps [simp del]

definition inherited_keys :: "results_object \<Rightarrow> string list" where
  "inherited_keys results =
     (case ro_proto results of
        None \<Rightarrow> []
      | Some rows \<Rightarrow>
          filter (\<lambda>key. key \<notin> set (map fst (ro_own results)))
            (map index_key [0..<length rows]))"

text \<open>The combined data point of one bucket.\<close>

definition combine_point :: "(string \<times> data_point list) list \<Rightarrow> string \<Rightarrow> js_object" where
  "combine_point results period =
     foldl (\<lambda>dataPoint (metric, rows).
              AList.update metric
                (case find (\<lambda>dp. dp_time_period dp = period) rows of
                   Some metricDataPoint \<Rightarrow>
                     (case dp_total metricDataPoint of Some n \<Rightarrow> JNum n | None \<Rightarrow> JNull)
                 | None \<Rightarrow> JNum 0)
                dataPoint)
           [(''time_period'', JStr period)] results"

definition handleComparisonQuery ::
  "(string \<Rightarrow> int \<Rightarrow> string) \<Rightarrow> int \<Rightarrow> database \<Rightarrow> string \<Rightarrow> timeseries_request
     \<Rightarrow> error_response + comparison_response" where
  "handleComparisonQuery strftime now db app_id rq =
     (case rq_metrics rq of
        None \<Rightarrow> Inl (ErrorResponse ''Missing metrics parameter'' 400)
      | Some metricsParam \<Rightarrow>
          if metricsParam = [] then Inl (ErrorResponse ''Missing metrics parameter'' 400)
          else
            let metrics = filter (\<lambda>m. m \<noteq> []) (map trim (js_split CHR '','' metricsParam))
            in if length metrics < 1 \<or> length metrics > 5
               then Inl (ErrorResponse ''Please provide between 1 and 5 metrics to compare'' 400)
               else
                 let period = or_else (rq_period rq) ''day'';
                     limit = (case rq_limit rq of None \<Rightarrow> 30 | Some n \<Rightarrow> n);
                     fromDate = (case rq_from rq of None \<Rightarrow> now - 60 * 60 * 24 * 30 | Some t \<Rightarrow> t);
                     toDate = (case rq_to rq of None \<Rightarrow> now | Some t \<Rightarrow> t)
                 in (case timeGroup_of period of
                      None \<Rightarrow> Inl (ErrorResponse ''Invalid period parameter'' 400)
                    | Some timeGroup \<Rightarrow>
                        let results =
                              foldl (\<lambda>results metric.
                                       results_assign metric
                                         (metric_results (strftime timeGroup) db app_id
                                            fromDate toDate metric)
                                         results)
                                    \<lparr>ro_own = [], ro_proto = None\<rparr> metrics
                        in if inherited_keys results \<noteq> []
                           then Inl (ErrorResponse ''Failed to retrieve comparison data'' 500)
                           else
                             let allTimePeriods =
                                   foldl (\<lambda>acc (metric, rows).
                                            foldl (\<lambda>acc dataPoint.
                                                     set_add (dp_time_period dataPoint) acc)
                                                  acc rows)
                                         [] (ro_own results);
                                 sortedTimePeriods = sort allTimePeriods;
                                 limitedTimePeriods = js_slice (- limit) sortedTimePeriods;
                                 combinedData =
                                   map (combine_point (ro_own results)) limitedTimePeriods
                             in Inr \<lparr>cr_app_id = app_id, cr_metrics = metrics,
                                     cr_period = period, cr_from = fromDate, cr_to = toDate,
                                     cr_data = combinedData\<rparr>))"

subsection \<open>The metric key as the specification words it\<close>

text \<open>
  The specification derives the key by \<^verbatim>\<open>qualifier == null ? event_type : event_type + "." + qualifier\<close>:
  the test is for \<^verbatim>\<open>null\<close>, not for truthiness.
\<close>

definition buildMetricKey_spec :: "string \<Rightarrow> string option \<Rightarrow> string" where
  "buildMetricKey_spec event_type qualifier =
     (case qualifier of None \<Rightarrow> event_type | Some q \<Rightarrow> event_type @ ''.'' @ q)"

subsection \<open>A calendar for the examples\<close>

text \<open>
  SQLite's \<^verbatim>\<open>strftime\<close> on the four formats of the handlers, for the years 0000 to
  9999 of the proleptic Gregorian calendar in UTC. It instantiates the parameter
  \<open>strftime\<close> in the examples; no general theorem depends on it. \<^verbatim>\<open>%W\<close> is the week of
  the year, 00 to 53, where week 01 starts on the first Monday.
\<close>

definition civil_from_days :: "int \<Rightarrow> int \<times> int \<times> int" where
  "civil_from_days days =
     (let z = days + 719468;
          era = z div 146097;
          doe = z mod 146097;
          yoe = (doe - doe div 1460 + doe div 36524 - doe div 146096) div 365;
          doy = doe - (365 * yoe + yoe div 4 - yoe div 100);
          mp = (5 * doy + 2) div 153;
          d = doy - (153 * mp + 2) div 5 + 1;
          m = (if mp < 10 then mp + 3 else mp - 9);
          y = yoe + era * 400 + (if m \<le> 2 then 1 else 0)
      in (y, m, d))"

definition days_from_civil :: "int \<Rightarrow> int \<Rightarrow> int \<Rightarrow> int" where
  "days_from_civil y m d =
     (let y' = (if m \<le> 2 then y - 1 else y);
          era = y' div 400;
          yoe = y' mod 400;
          doy = (153 * (if m > 2 then m - 3 else m + 9) + 2) div 5 + d - 1;
          doe = yoe * 365 + yoe div 4 - yoe div 100 + doy
      in era * 146097 + doe - 719468)"

definition digit :: "int \<Rightarrow> char" where
  "digit n = ''0123456789'' ! nat (n mod 10)"

definition pad2 :: "int \<Rightarrow> string" where
  "pad2 n = [digit (n div 10), digit n]"

definition pad4 :: "int \<Rightarrow> string" where
  "pad4 n = [digit (n div 1000), digit (n div 100), digit (n div 10), digit n]"

definition sqlite_strftime :: "string \<Rightarrow> int \<Rightarrow> string" where
  "sqlite_strftime format t =
     (let days = t div 86400;
          (y, m, d) = civil_from_days days;
          hour = (t mod 86400) div 3600;
          yday = days - days_from_civil y 1 1;
          weekday = (days + 3) mod 7;
          week = (yday + 7 - weekday) div 7
      in if format = ''%Y-%m-%d %H:00:00''
         then pad4 y @ ''-'' @ pad2 m @ ''-'' @ pad2 d @ '' '' @ pad2 hour @ '':00:00''
         else if format = ''%Y-%m-%d'' then pad4 y @ ''-'' @ pad2 m @ ''-'' @ pad2 d
         else if format = ''%Y-%W'' then pad4 y @ ''-'' @ pad2 week
         else if format = ''%Y-%m'' then pad4 y @ ''-'' @ pad2 m
         else format)"

subsection \<open>Requests of the examples\<close>

text \<open>
  The body of \<^verbatim>\<open>client.track(event_type, {qualifier, value, category, timestamp})\<close>, with
  no country; a body whose value is an explicit \<^verbatim>\<open>null\<close>; a body without event type;
  and a timeseries request for one metric or for a list of metrics.
\<close>

definition track ::
  "string \<Rightarrow> string option \<Rightarrow> int option \<Rightarrow> string option \<Rightarrow> int option \<Rightarrow> track_data" where
  "track event_type qualifier v category timestamp =
     \<lparr>td_event_type = Some event_type, td_qualifier = qualifier, td_value = map_option Some v,
      td_category = category, td_timestamp = timestamp, td_country = None\<rparr>"

definition track_null_value :: "string \<Rightarrow> track_data" where
  "track_null_value event_type =
     \<lparr>td_event_type = Some event_type, td_qualifier = None, td_value = Some None,
      td_category = None, td_timestamp = None, td_country = None\<rparr>"

definition no_event_type :: track_data where
  "no_event_type =
     \<lparr>td_event_type = None, td_qualifier = None, td_value = None,
      td_category = None, td_timestamp = None, td_country = None\<rparr>"

definition timeseries_of :: "string \<Rightarrow> string \<Rightarrow> int \<Rightarrow> timeseries_request" where
  "timeseries_of metric period limit =
     \<lparr>rq_metric = Some metric, rq_metrics = None, rq_period = Some period,
      rq_limit = Some limit, rq_from = Some 0, rq_to = None\<rparr>"

definition comparison_of :: "string \<Rightarrow> string \<Rightarrow> int \<Rightarrow> timeseries_request" where
  "comparison_of metrics period limit =
     \<lparr>rq_metric = None, rq_metrics = Some metrics, rq_period = Some period,
      rq_limit = Some limit, rq_from = Some 0, rq_to = None\<rparr>"

subsection \<open>The consistency of the counters with the event log\<close>

text \<open>
  The metric key of a stored event as the code derives it, the sum of the values of the
  events of one application and one metric key (a NULL value adds nothing), and the
  invariant of the store: no two counters share \<open>(app_id, metric)\<close>, every counter holds
  the sum of its events, every event has a counter, and no event has the value NULL.
\<close>

definition ev_metric :: "event_row \<Rightarrow> string" where
  "ev_metric e = metric_key (ev_event_type e) (ev_qualifier e)"

definition number_of :: "int option \<Rightarrow> int" where
  "number_of v = (case v of None \<Rightarrow> 0 | Some n \<Rightarrow> n)"

definition event_sum :: "database \<Rightarrow> string \<Rightarrow> string \<Rightarrow> int" where
  "event_sum db app_id metric =
     sum_list (map (\<lambda>e. number_of (ev_value e))
       (filter (\<lambda>e. ev_app_id e = app_id \<and> ev_metric e = metric) (db_events db)))"

definition counters_consistent :: "database \<Rightarrow> bool" where
  "counters_consistent db \<longleftrightarrow>
     distinct (map (\<lambda>s. (st_app_id s, st_metric s)) (db_stats db))
     \<and> list_all (\<lambda>s. st_value s = Some (event_sum db (st_app_id s) (st_metric s)))
          (db_stats db)
     \<and> list_all (\<lambda>e. list_ex (stat_has_key (ev_app_id e) (ev_metric e)) (db_stats db))
          (db_events db)
     \<and> list_all (\<lambda>e. ev_value e \<noteq> None) (db_events db)"

text \<open>
  The sum of the events under the key as the specification derives it, with the test
  for \<^verbatim>\<open>null\<close>.
\<close>

definition event_sum_spec :: "database \<Rightarrow> string \<Rightarrow> string \<Rightarrow> int" where
  "event_sum_spec db app_id metric =
     sum_list (map (\<lambda>e. number_of (ev_value e))
       (filter (\<lambda>e. ev_app_id e = app_id
                    \<and> buildMetricKey_spec (ev_event_type e) (ev_qualifier e) = metric)
          (db_events db)))"

text \<open>
  The items of a call, the value an item records (1 when the field is absent), the
  magnitudes of the values of a log and of a list of items, and the calls whose values
  add up exactly: no value is \<^verbatim>\<open>null\<close>, and the magnitudes of all values together are
  at most \<open>2^53\<close>, so that no sum of them leaves the range in which the addition of
  doubles is exact.
\<close>

definition resolved_value :: "track_data \<Rightarrow> int option" where
  "resolved_value d = (case td_value d of None \<Rightarrow> Some 1 | Some x \<Rightarrow> x)"

fun call_items :: "call \<Rightarrow> track_data list" where
  "call_items (Record now cf_country app_id data) = [data]"
| "call_items (RecordBatch now cf_country app_id events) =
     (case events of None \<Rightarrow> [] | Some evs \<Rightarrow> evs)"

definition abs_total :: "database \<Rightarrow> int" where
  "abs_total db = sum_list (map (\<lambda>e. \<bar>number_of (ev_value e)\<bar>) (db_events db))"

definition magnitude :: "track_data list \<Rightarrow> int" where
  "magnitude items = sum_list (map (\<lambda>d. \<bar>number_of (resolved_value d)\<bar>) items)"

definition values_exact :: "call list \<Rightarrow> bool" where
  "values_exact calls \<longleftrightarrow>
     list_all (\<lambda>d. resolved_value d \<noteq> None) (concat (map call_items calls))
     \<and> magnitude (concat (map call_items calls)) \<le> 2 ^ 53"

subsection \<open>Event logs of the examples\<close>

text \<open>
  Six page views on five consecutive days (8 to 12 March 2025); two metrics of which
  the first has events on the first two days and the second on the last two of three
  days; and three installs on one day, one without qualifier, one with the qualifier
  \<open>organic\<close> and one with the empty qualifier.
\<close>

definition five_days :: "call list" where
  "five_days =
     [Record 1741392000 None ''app1'' (track ''page_view'' (Some ''home'') None None None),
      Record 1741478400 None ''app1'' (track ''page_view'' (Some ''home'') (Some 4) None None),
      Record 1741564800 None ''app1'' (track ''page_view'' (Some ''home'') None None None),
      Record 1741651200 None ''app1'' (track ''page_view'' (Some ''home'') (Some 2) None None),
      Record 1741651200 None ''app1'' (track ''page_view'' (Some ''home'') None None None),
      Record 1741737600 None ''app1'' (track ''page_view'' (Some ''home'') None None None)]"

definition two_metrics :: "call list" where
  "two_metrics =
     [Record 1741392000 None ''app1'' (track ''page_view'' (Some ''home'') None None None),
      Record 1741478400 None ''app1'' (track ''page_view'' (Some ''home'') (Some 4) None None),
      Record 1741478400 None ''app1'' (track ''signup'' None None None None),
      Record 1741564800 None ''app1'' (track ''signup'' None (Some 2) None None)]"

definition qualified_installs :: "call list" where
  "qualified_installs =
     [Record 1741392000 None ''app1'' (track ''install'' None None None None),
      Record 1741392000 None ''app1'' (track ''install'' (Some ''organic'') (Some 10) None None),
      Record 1741392000 None ''app1'' (track ''install'' (Some '''') (Some 100) None None)]"

text \<open>
  Installs of two applications around 8 and 9 March 2025, with the values 1, 10, 100
  and so on, so that a sum tells which events are in it; and a request for the series
  of \<open>install\<close> by day from 8 March 00:00:00 to 9 March 23:59:59.
\<close>

definition installs_of_two_apps :: "call list" where
  "installs_of_two_apps =
     [Record 1741392000 None ''app1'' (track ''install'' None (Some 1) None None),
      Record 1741392000 None ''app1'' (track ''install'' (Some ''organic'') (Some 10) None None),
      Record 1741392000 None ''app1'' (track ''install'' (Some '''') (Some 100) None None),
      Record 1741392000 None ''app2'' (track ''install'' None (Some 1000) None None),
      Record 1741305600 None ''app1'' (track ''install'' None (Some 10000) None None),
      Record 1741564800 None ''app1'' (track ''install'' None (Some 100000) None None),
      Record 1741392000 None ''app1'' (track ''installation'' None (Some 1000000) None None),
      Record 1741478400 None ''app1'' (track ''install'' None (Some 2) None None)]"

definition install_request :: timeseries_request where
  "install_request =
     \<lparr>rq_metric = Some ''install'', rq_metrics = None, rq_period = Some ''day'',
      rq_limit = Some 30, rq_from = Some 1741392000, rq_to = Some 1741564799\<rparr>"

subsection \<open>The comparison table as the specification words it\<close>

text \<open>
  The value of a metric's series in a bucket, 0 when the series has no row for the
  bucket (and \<^verbatim>\<open>null\<close> when all its values there are NULL), and the dense data point of
  a bucket: a value for every requested metric, and
  the bucket's text under \<open>time_period\<close>. The metrics come first, as in the code, where
  the assignment of a metric named \<open>time_period\<close> replaces the bucket's text.
\<close>

definition bucket_value :: "data_point list \<Rightarrow> string \<Rightarrow> json_value" where
  "bucket_value series period =
     (case find (\<lambda>dp. dp_time_period dp = period) series of
        Some dp \<Rightarrow> (case dp_total dp of Some n \<Rightarrow> JNum n | None \<Rightarrow> JNull)
      | None \<Rightarrow> JNum 0)"

definition dense_point ::
  "string list \<Rightarrow> (string \<Rightarrow> data_point list) \<Rightarrow> string \<Rightarrow> string \<rightharpoonup> json_value" where
  "dense_point metrics series period =
     (\<lambda>key. if key \<in> set metrics then Some (bucket_value (series key) period)
            else if key = ''time_period'' then Some (JStr period)
            else None)"

section \<open>Properties\<close>

subsection \<open>Strings\<close>

lemma js_includes_sublist: "js_includes s p \<longleftrightarrow> sublist p s"
  by (induction s) (simp_all add: sublist_Cons_right)

subsection \<open>The categorizer\<close>

text \<open>
  C4. \<open>determineCategory\<close> is the first-match evaluation of the seven ordered rules
  of the specification, on every string and without any normalisation of it. In
  particular \<open>purchase_premium\<close> is revenue, \<open>page_view\<close> is engagement, \<open>random_xyz\<close> is
  general, and \<open>error_on_login\<close> is error although it contains \<open>login\<close>, since the error
  rule stands before the user rule. Matching is case-sensitive: \<open>Purchase\<close> is general.
\<close>

theorem determineCategory_first_match:
  "determineCategory s = categorize_spec s
   \<and> determineCategory ''purchase_premium'' = ''revenue''
   \<and> determineCategory ''page_view'' = ''engagement''
   \<and> determineCategory ''random_xyz'' = ''general''
   \<and> determineCategory ''error_on_login'' = ''error''
   \<and> js_includes ''error_on_login'' ''login''
   \<and> determineCategory ''Purchase'' = ''general''"
proof -
  have "determineCategory s = categorize_spec s"
    by (simp add: determineCategory_def categorize_spec_def categorize_rules_def
        startsWith_def js_includes_sublist)
  moreover have "determineCategory ''purchase_premium'' = ''revenue''"
    by (simp add: determineCategory_def startsWith_def)
  moreover have "determineCategory ''page_view'' = ''engagement''"
    by (simp add: determineCategory_def startsWith_def)
  moreover have "determineCategory ''random_xyz'' = ''general''"
    by (simp add: determineCategory_def startsWith_def)
  moreover have "determineCategory ''error_on_login'' = ''error''"
    by (simp add: determineCategory_def startsWith_def)
  moreover have "js_includes ''error_on_login'' ''login''"
    by simp
  moreover have "determineCategory ''Purchase'' = ''general''"
    by (simp add: determineCategory_def startsWith_def)
  ultimately show ?thesis by blast
qed

subsection \<open>The metric key\<close>

text \<open>
  C5, as stated, fails for a qualifier that is the empty string: the code tests the
  truthiness of the qualifier, so the key of \<open>install\<close> with the qualifier \<open>""\<close> is
  \<open>install\<close>, where the specification's derivation gives \<open>install.\<close> with a trailing dot.
\<close>

theorem metric_key_empty_qualifier_counterexample:
  "metric_key ''install'' (Some '''') \<noteq> buildMetricKey_spec ''install'' (Some '''')"
  by (simp add: metric_key_def buildMetricKey_spec_def)

text \<open>
  C5, amended. The key is the event type when the qualifier is \<^verbatim>\<open>null\<close> or the empty
  string, and event type, dot, qualifier otherwise: the specification's derivation
  except at the empty qualifier. It is the metric that \<open>createEventStatements\<close> binds
  in its counter statement. \<open>install\<close> without qualifier has the key \<open>install\<close>, and
  \<open>purchase\<close> with the qualifier \<open>premium\<close> the key \<open>purchase.premium\<close>.
\<close>

theorem metric_key_derivation:
  "metric_key event_type qualifier =
     (if qualifier = Some [] then event_type else buildMetricKey_spec event_type qualifier)
   \<and> createEventStatements app_id event_type category qualifier v ts country ! 1 =
       UpsertStat app_id
         (if qualifier = Some [] then event_type else buildMetricKey_spec event_type qualifier)
         category v ts v ts
   \<and> metric_key ''install'' None = ''install''
   \<and> metric_key ''purchase'' (Some ''premium'') = ''purchase.premium''"
  by (simp add: metric_key_def buildMetricKey_spec_def createEventStatements_def
      split: option.splits)

subsection \<open>The store\<close>

lemma find_append_case:
  "find P (xs @ ys) = (case find P xs of None \<Rightarrow> find P ys | Some x \<Rightarrow> Some x)"
  by (induction xs) simp_all

lemma find_map_update:
  assumes "\<And>x. P (g x) = P x"
  shows "find P (map (\<lambda>x. if P x then g x else x) xs) = map_option g (find P xs)"
  by (induction xs) (simp_all add: assms)

lemma list_ex_find: "list_ex P xs \<longleftrightarrow> find P xs \<noteq> None"
  by (induction xs) simp_all

lemma list_ex_map_update:
  assumes "\<And>x. Q (g x) = Q x"
  shows "list_ex Q (map (\<lambda>x. if P x then g x else x) xs) = list_ex Q xs"
  by (induction xs) (simp_all add: assms)

lemma db_batch_append: "db_batch db (xs @ ys) = db_batch (db_batch db xs) ys"
  by (simp add: db_batch_def)

lemma db_batch_createEventStatements:
  "db_batch db (createEventStatements app_id event_type category qualifier v ts country) =
     exec_statement
       (exec_statement db (InsertEvent app_id event_type category qualifier v ts country))
       (UpsertStat app_id (metric_key event_type qualifier) category v ts v ts)"
  by (simp add: db_batch_def createEventStatements_def)

lemma select_stat_InsertEvent:
  "select_stat (exec_statement db (InsertEvent app_id event_type category qualifier v ts country))
     a m = select_stat db a m"
  by (simp add: select_stat_def)

lemma select_stat_UpsertStat:
  "select_stat (exec_statement db (UpsertStat app_id metric category v ts v' ts')) app_id metric =
     (case select_stat db app_id metric of
        None \<Rightarrow> Some \<lparr>st_id = next_rowid (map st_id (db_stats db)), st_app_id = app_id,
                       st_metric = metric, st_category = category, st_value = v,
                       st_last_updated = ts\<rparr>
      | Some old \<Rightarrow> Some (old\<lparr>st_value := sql_add (st_value old) v', st_last_updated := ts'\<rparr>))"
proof (cases "list_ex (stat_has_key app_id metric) (db_stats db)")
  case True
  then obtain old where old: "find (stat_has_key app_id metric) (db_stats db) = Some old"
    by (auto simp: list_ex_find)
  have "find (stat_has_key app_id metric)
          (map (\<lambda>s. if stat_has_key app_id metric s
                     then s\<lparr>st_value := sql_add (st_value s) v', st_last_updated := ts'\<rparr> else s)
             (db_stats db)) =
        map_option (\<lambda>s. s\<lparr>st_value := sql_add (st_value s) v', st_last_updated := ts'\<rparr>)
          (find (stat_has_key app_id metric) (db_stats db))"
    by (rule find_map_update) (simp add: stat_has_key_def)
  with True old show ?thesis
    by (simp add: select_stat_def)
next
  case False
  then have "find (stat_has_key app_id metric) (db_stats db) = None"
    by (simp add: list_ex_find)
  with False show ?thesis
    by (simp add: select_stat_def find_append_case stat_has_key_def)
qed

lemma handleTrackEvent_db:
  assumes "td_event_type data = Some event_type" and "event_type \<noteq> []"
  shows "snd (handleTrackEvent now cf_country db app_id data) =
           db_batch db
             (createEventStatements app_id event_type
                (or_else (td_category data) (determineCategory event_type))
                (td_qualifier data)
                (case td_value data of None \<Rightarrow> Some 1 | Some x \<Rightarrow> x)
                (case td_timestamp data of None \<Rightarrow> now | Some t \<Rightarrow> t)
                (case td_country data of None \<Rightarrow> or_null cf_country | Some c \<Rightarrow> c))"
  using assms by (simp add: handleTrackEvent_def Let_def)

text \<open>Unfolding the recorder on a concrete request.\<close>

lemma round_double_exact: "\<bar>x\<bar> \<le> 2 ^ 53 \<Longrightarrow> round_double x = x"
  by (simp add: round_double_def)

lemma sql_add_exact: "\<bar>x + y\<bar> \<le> 2 ^ 53 \<Longrightarrow> sql_add (Some x) (Some y) = Some (x + y)"
  by (simp add: sql_add_def double_add_def round_double_exact)

lemmas recorder_defs =
  run_calls_def empty_db_def handleTrackEvent_def handleBatchTrackEvents_def Let_def track_def
  createEventStatements_def db_batch_def metric_key_def or_else_def or_null_def
  determineCategory_def startsWith_def select_stat_def stat_has_key_def next_rowid_def
  no_event_type_def sql_add_exact

subsection \<open>The handlers of src/api/events.js\<close>

text \<open>
  The handlers of \<^verbatim>\<open>src/api/events.js\<close> are those of \<^verbatim>\<open>src/handlers/event.js\<close> on a
  request whose country is \<^verbatim>\<open>null\<close>: the properties of the recorder below hold of both.
\<close>

lemma handleTrackEvent_api_eq:
  "handleTrackEvent_api now db app_id data =
     handleTrackEvent now None db app_id (data\<lparr>td_country := Some None\<rparr>)"
  by (simp add: handleTrackEvent_api_def handleTrackEvent_def createEventStatements_def Let_def
      split: option.splits)

lemma batch_loop_api_eq:
  "batch_loop_api ts app_id evs statements results =
     batch_loop ts None app_id (map (\<lambda>e. e\<lparr>td_country := Some None\<rparr>) evs) statements results"
  by (induction evs arbitrary: statements results)
     (simp_all add: createEventStatements_def Let_def split: option.splits)

lemma handleBatchTrackEvents_api_eq:
  "handleBatchTrackEvents_api now db app_id events =
     handleBatchTrackEvents now None db app_id
       (map_option (map (\<lambda>e. e\<lparr>td_country := Some None\<rparr>)) events)"
  by (simp add: handleBatchTrackEvents_api_def handleBatchTrackEvents_def batch_loop_api_eq
      or_null_def split: option.splits)

subsection \<open>The category of a counter\<close>

text \<open>
  C3, as stated, fails: the \<^verbatim>\<open>DO UPDATE SET\<close> clause of the counter statement assigns
  \<^verbatim>\<open>value\<close> and \<^verbatim>\<open>last_updated\<close> only. A first \<open>signup\<close> event with the category \<open>user\<close>
  creates the counter; a second one with the category \<open>marketing\<close> is answered with the
  category \<open>marketing\<close>, and the counter still has the category \<open>user\<close>.
\<close>

theorem category_last_write_counterexample:
  "fst (handleTrackEvent 200 None
          (run_calls [Record 100 None ''app1'' (track ''signup'' None None (Some ''user'') None)])
          ''app1'' (track ''signup'' None None (Some ''marketing'') None)) =
     Inr \<lparr>tr_app_id = ''app1'', tr_metric = ''signup'', tr_category = ''marketing'',
          tr_value = Some 2, tr_timestamp = 200, tr_country = None\<rparr>
   \<and> db_stats (run_calls
         [Record 100 None ''app1'' (track ''signup'' None None (Some ''user'') None),
          Record 200 None ''app1'' (track ''signup'' None None (Some ''marketing'') None)]) =
       [\<lparr>st_id = 1, st_app_id = ''app1'', st_metric = ''signup'', st_category = ''user'',
         st_value = Some 2, st_last_updated = 200\<rparr>]"
  by (simp add: recorder_defs)

text \<open>
  C3, amended. A successful \<open>record\<close> call for an existing counter adds the value (by
  the store's addition) and sets \<open>last_updated\<close> and leaves every other column of the
  row, the category among them, as it was: the category of a counter is the one resolved by the call that
  created it. A call for a counter that does not exist creates it with the category it
  resolves (the request's category, or else the categorizer's).
\<close>

theorem stat_category_first_write:
  assumes "td_event_type data = Some event_type" and "event_type \<noteq> []"
    and "db' = snd (handleTrackEvent now cf_country db app_id data)"
    and "metric = metric_key event_type (td_qualifier data)"
  shows "case select_stat db app_id metric of
           Some old \<Rightarrow>
             select_stat db' app_id metric =
               Some (old\<lparr>st_value :=
                           sql_add (st_value old)
                             (case td_value data of None \<Rightarrow> Some 1 | Some x \<Rightarrow> x),
                         st_last_updated := (case td_timestamp data of None \<Rightarrow> now | Some t \<Rightarrow> t)\<rparr>)
             \<and> map_option st_category (select_stat db' app_id metric) = Some (st_category old)
         | None \<Rightarrow>
             map_option st_category (select_stat db' app_id metric) =
               Some (or_else (td_category data) (determineCategory event_type))"
proof -
  let ?v = "case td_value data of None \<Rightarrow> Some 1 | Some x \<Rightarrow> x"
  let ?ts = "case td_timestamp data of None \<Rightarrow> now | Some t \<Rightarrow> t"
  let ?cat = "or_else (td_category data) (determineCategory event_type)"
  obtain db1 where db': "db' = exec_statement db1 (UpsertStat app_id metric ?cat ?v ?ts ?v ?ts)"
    and db1: "select_stat db1 app_id metric = select_stat db app_id metric"
    using assms
    by (simp add: handleTrackEvent_db db_batch_createEventStatements select_stat_InsertEvent
        del: exec_statement.simps)
  show ?thesis
    unfolding db' select_stat_UpsertStat db1
    by (simp split: option.splits)
qed

theorem stat_category_first_write_witness:
  "select_stat
     (snd (handleTrackEvent 200 None
             (run_calls [Record 100 None ''app1'' (track ''signup'' None None (Some ''user'') None)])
             ''app1'' (track ''signup'' None None (Some ''marketing'') None)))
     ''app1'' ''signup'' =
     Some \<lparr>st_id = 1, st_app_id = ''app1'', st_metric = ''signup'', st_category = ''user'',
           st_value = Some 2, st_last_updated = 200\<rparr>"
  using stat_category_first_write
    [where data = "track ''signup'' None None (Some ''marketing'') None"
     and event_type = "''signup''" and now = 200 and cf_country = None and app_id = "''app1''"
     and metric = "''signup''"
     and db = "run_calls [Record 100 None ''app1'' (track ''signup'' None None (Some ''user'') None)]"
     and db' = "snd (handleTrackEvent 200 None
             (run_calls [Record 100 None ''app1'' (track ''signup'' None None (Some ''user'') None)])
             ''app1'' (track ''signup'' None None (Some ''marketing'') None))"]
  by (simp add: recorder_defs)

subsection \<open>The value read back\<close>

text \<open>
  What \<open>handleTrackEvent\<close> returns on success: the counter exists after the batch, and
  the response carries its value, unless that value is 0 or \<^verbatim>\<open>null\<close>, when it carries the
  value of the request.
\<close>

lemma handleTrackEvent_readback:
  assumes "handleTrackEvent now cf_country db app_id data = (Inr r, db')"
  shows "\<exists>row. select_stat db' app_id (tr_metric r) = Some row
           \<and> tr_value r = (if st_value row = Some 0 \<or> st_value row = None
                           then (case td_value data of None \<Rightarrow> Some 1 | Some x \<Rightarrow> x)
                           else st_value row)"
proof -
  from assms obtain event_type where et: "td_event_type data = Some event_type" "event_type \<noteq> []"
    by (auto simp: handleTrackEvent_def Let_def split: option.splits if_splits)
  let ?m = "metric_key event_type (td_qualifier data)"
  have db': "db' = snd (handleTrackEvent now cf_country db app_id data)"
    using assms by simp
  have "select_stat db' app_id ?m \<noteq> None"
    unfolding db' handleTrackEvent_db [OF et] db_batch_createEventStatements select_stat_UpsertStat
    by (simp split: option.splits)
  then obtain row where row: "select_stat db' app_id ?m = Some row" by auto
  have "tr_metric r = ?m"
    using assms et by (auto simp: handleTrackEvent_def Let_def)
  moreover have "tr_value r = (if st_value row = Some 0 \<or> st_value row = None
                           then (case td_value data of None \<Rightarrow> Some 1 | Some x \<Rightarrow> x)
                           else st_value row)"
    using assms et row by (auto simp: handleTrackEvent_def Let_def split: option.splits)
  ultimately show ?thesis using row by simp
qed

text \<open>
  C6 at a failing input. After a \<open>balance\<close> event of value 5, a \<open>balance\<close> event of value
  -5 brings the counter to 0; the response reports -5, the value of the request, since
  \<^verbatim>\<open>result?.value || value\<close> takes 0 for a missing value. In the scenario of the
  specification the counter is never 0 and the value read back is right: 999, then 1998.
\<close>

theorem readback_at_zero:
  "fst (handleTrackEvent 100 None empty_db ''app1''
          (track ''purchase'' (Some ''premium_upgrade'') (Some 999) None None)) =
     Inr \<lparr>tr_app_id = ''app1'', tr_metric = ''purchase.premium_upgrade'',
          tr_category = ''revenue'', tr_value = Some 999, tr_timestamp = 100, tr_country = None\<rparr>
   \<and> fst (handleTrackEvent 200 None
          (run_calls [Record 100 None ''app1''
             (track ''purchase'' (Some ''premium_upgrade'') (Some 999) None None)])
          ''app1'' (track ''purchase'' (Some ''premium_upgrade'') (Some 999) None None)) =
     Inr \<lparr>tr_app_id = ''app1'', tr_metric = ''purchase.premium_upgrade'',
          tr_category = ''revenue'', tr_value = Some 1998, tr_timestamp = 200, tr_country = None\<rparr>
   \<and> fst (handleTrackEvent 200 None
          (run_calls [Record 100 None ''app1'' (track ''balance'' None (Some 5) None None)])
          ''app1'' (track ''balance'' None (Some (- 5)) None None)) =
     Inr \<lparr>tr_app_id = ''app1'', tr_metric = ''balance'', tr_category = ''general'',
          tr_value = Some (- 5), tr_timestamp = 200, tr_country = None\<rparr>
   \<and> db_stats (run_calls
         [Record 100 None ''app1'' (track ''balance'' None (Some 5) None None),
          Record 200 None ''app1'' (track ''balance'' None (Some (- 5)) None None)]) =
       [\<lparr>st_id = 1, st_app_id = ''app1'', st_metric = ''balance'', st_category = ''general'',
         st_value = Some 0, st_last_updated = 200\<rparr>]"
  by (simp add: recorder_defs)

subsection \<open>Batches\<close>

lemma batch_loop_missing:
  assumes "list_ex (\<lambda>e. \<not> truthy (td_event_type e)) evs"
  shows "batch_loop ts co app_id evs statements results =
           Inl (ErrorResponse ''Missing event_type in batch item'' 400)"
  using assms
proof (induction evs arbitrary: statements results)
  case Nil
  then show ?case by simp
next
  case (Cons event rest)
  show ?case
  proof (cases "truthy (td_event_type event)")
    case True
    then obtain event_type where "td_event_type event = Some event_type" "event_type \<noteq> []"
      by (cases "td_event_type event") auto
    moreover from True Cons.prems have "list_ex (\<lambda>e. \<not> truthy (td_event_type e)) rest"
      by simp
    ultimately show ?thesis
      by (simp add: Let_def Cons.IH)
  next
    case False
    then show ?thesis
      by (cases "td_event_type event") auto
  qed
qed

lemma handleBatchTrackEvents_error_unchanged:
  assumes "fst (handleBatchTrackEvents now cf_country db app_id events) = Inl e"
  shows "snd (handleBatchTrackEvents now cf_country db app_id events) = db"
  using assms
  by (auto simp: handleBatchTrackEvents_def split: option.splits if_splits sum.splits)

text \<open>
  C2, as stated, fails for a batch of more than 100 items: the size check comes before
  the loop over the items, so such a batch is refused for its size (the specification's
  CapacityError), whether or not an item lacks its event type.
\<close>

theorem batch_over_capacity_counterexample:
  "fst (handleBatchTrackEvents 300 None empty_db ''app1''
          (Some (no_event_type # replicate 100 (track ''page_view'' None None None None)))) =
     Inl (ErrorResponse ''Batch size exceeds maximum (100)'' 400)
   \<and> fst (handleBatchTrackEvents 300 None empty_db ''app1''
          (Some (no_event_type # replicate 100 (track ''page_view'' None None None None)))) \<noteq>
     Inl (ErrorResponse ''Missing event_type in batch item'' 400)"
  by (simp add: handleBatchTrackEvents_def)

text \<open>
  C2, amended. A \<open>recordBatch\<close> call with at least one item whose event type is missing
  (absent, \<^verbatim>\<open>null\<close> or empty) fails and leaves the store as it was: no event row and no
  counter update is persisted. The failure is \<open>Missing event_type in batch item\<close> (a
  ValidationError) when the batch has at most 100 items, and \<open>Batch size exceeds maximum (100)\<close>
  otherwise.
\<close>

theorem batch_atomicity:
  assumes "\<exists>e \<in> set evs. \<not> truthy (td_event_type e)"
  shows "handleBatchTrackEvents now cf_country db app_id (Some evs) =
           (Inl (ErrorResponse
                   (if length evs > 100 then ''Batch size exceeds maximum (100)''
                    else ''Missing event_type in batch item'') 400),
            db)"
proof -
  from assms have "list_ex (\<lambda>e. \<not> truthy (td_event_type e)) evs"
    by (simp add: list_ex_iff)
  then have "batch_loop now (or_null cf_country) app_id evs [] [] =
               Inl (ErrorResponse ''Missing event_type in batch item'' 400)"
    by (rule batch_loop_missing)
  moreover from assms have "evs \<noteq> []" by auto
  ultimately show ?thesis
    by (simp add: handleBatchTrackEvents_def)
qed

theorem batch_atomicity_witness:
  "handleBatchTrackEvents 300 None
     (run_calls [Record 100 None ''app1'' (track ''install'' None None None None)])
     ''app1''
     (Some [track ''page_view'' (Some ''home'') None None None,
            track ''button_click'' (Some ''signup'') None None None,
            no_event_type,
            track ''purchase'' (Some ''premium'') (Some 999) None None,
            track ''install'' None None None None]) =
     (Inl (ErrorResponse ''Missing event_type in batch item'' 400),
      run_calls [Record 100 None ''app1'' (track ''install'' None None None None)])"
  using batch_atomicity
    [where evs =
       "[track ''page_view'' (Some ''home'') None None None,
         track ''button_click'' (Some ''signup'') None None None,
         no_event_type,
         track ''purchase'' (Some ''premium'') (Some 999) None None,
         track ''install'' None None None None]"
     and now = 300 and cf_country = None and app_id = "''app1''"
     and db = "run_calls [Record 100 None ''app1'' (track ''install'' None None None None)]"]
  by (simp add: no_event_type_def)

subsection \<open>Counter consistency\<close>

lemma event_sum_InsertEvent:
  "event_sum (exec_statement db (InsertEvent a et c q v t co)) a' m' =
     event_sum db a' m' + (if a' = a \<and> m' = metric_key et q then number_of v else 0)"
  by (simp add: event_sum_def ev_metric_def)

lemma event_sum_UpsertStat:
  "event_sum (exec_statement db (UpsertStat a m c v t v' t')) a' m' = event_sum db a' m'"
  by (simp add: event_sum_def)

lemma event_sum_no_events:
  assumes "list_all (\<lambda>e. list_ex (stat_has_key (ev_app_id e) (ev_metric e)) (db_stats db))
             (db_events db)"
    and "\<not> list_ex (stat_has_key a m) (db_stats db)"
  shows "event_sum db a m = 0"
proof -
  have "filter (\<lambda>e. ev_app_id e = a \<and> ev_metric e = m) (db_events db) = []"
    using assms by (auto simp: filter_empty_conv list_all_iff)
  then show ?thesis by (simp add: event_sum_def)
qed

lemma abs_sum_filter_le:
  "\<bar>sum_list (map f (filter P xs))\<bar> \<le> sum_list (map (\<lambda>x. \<bar>f x :: int\<bar>) xs)"
proof (induction xs)
  case Nil
  then show ?case by simp
next
  case (Cons x xs)
  have "0 \<le> sum_list (map (\<lambda>x. \<bar>f x\<bar>) xs)"
    by (rule sum_list_nonneg) auto
  with Cons show ?case by auto
qed

lemma abs_event_sum_le: "\<bar>event_sum db a m\<bar> \<le> abs_total db"
  unfolding event_sum_def abs_total_def by (rule abs_sum_filter_le)

lemma abs_total_pair:
  "abs_total (db_batch db (createEventStatements a et c q v t co)) =
     abs_total db + \<bar>number_of v\<bar>"
  by (simp add: db_batch_createEventStatements abs_total_def)

text \<open>
  One event and its counter update keep the invariant, when the value is a number and
  the magnitudes recorded stay within the exact range.
\<close>

lemma counters_consistent_pair:
  assumes "counters_consistent db" and "abs_total db + \<bar>n\<bar> \<le> 2 ^ 53"
  shows "counters_consistent (db_batch db (createEventStatements a et c q (Some n) t co))"
proof -
  let ?m = "metric_key et q"
  let ?db1 = "exec_statement db (InsertEvent a et c q (Some n) t co)"
  let ?db2 = "exec_statement ?db1 (UpsertStat a ?m c (Some n) t (Some n) t)"
  from assms(1) have dist: "distinct (map (\<lambda>s. (st_app_id s, st_metric s)) (db_stats db))"
    and vals: "\<And>s. s \<in> set (db_stats db) \<Longrightarrow>
                 st_value s = Some (event_sum db (st_app_id s) (st_metric s))"
    and cov: "list_all (\<lambda>e. list_ex (stat_has_key (ev_app_id e) (ev_metric e)) (db_stats db))
                (db_events db)"
    and nonnull: "list_all (\<lambda>e. ev_value e \<noteq> None) (db_events db)"
    by (simp_all add: counters_consistent_def list_all_iff)
  have sum2: "event_sum ?db2 a' m' = event_sum db a' m' + (if a' = a \<and> m' = ?m then n else 0)"
    for a' m'
    by (simp only: event_sum_UpsertStat event_sum_InsertEvent number_of_def option.case)
  have ev2: "db_events ?db2 = db_events db @
      [\<lparr>ev_id = next_rowid (map ev_id (db_events db)), ev_app_id = a, ev_event_type = et,
        ev_event_category = c, ev_qualifier = q, ev_value = Some n, ev_timestamp = t,
        ev_country = co\<rparr>]"
    by simp
  have nonnull2: "list_all (\<lambda>e. ev_value e \<noteq> None) (db_events ?db2)"
    unfolding ev2 using nonnull by simp
  have exact: "sql_add (Some (event_sum db a' m')) (Some n) = Some (event_sum db a' m' + n)"
    for a' m'
  proof (rule sql_add_exact)
    have "\<bar>event_sum db a' m' + n\<bar> \<le> \<bar>event_sum db a' m'\<bar> + \<bar>n\<bar>"
      by (rule abs_triangle_ineq)
    also have "\<dots> \<le> abs_total db + \<bar>n\<bar>"
      using abs_event_sum_le [of db a' m'] by simp
    finally show "\<bar>event_sum db a' m' + n\<bar> \<le> 2 ^ 53"
      using assms(2) by simp
  qed
  show ?thesis
  proof (cases "list_ex (stat_has_key a ?m) (db_stats db)")
    case True
    have st2: "db_stats ?db2 =
        map (\<lambda>s. if stat_has_key a ?m s
                  then s\<lparr>st_value := sql_add (st_value s) (Some n), st_last_updated := t\<rparr> else s)
          (db_stats db)"
      using True by simp
    have keys: "map (\<lambda>s. (st_app_id s, st_metric s)) (db_stats ?db2) =
                map (\<lambda>s. (st_app_id s, st_metric s)) (db_stats db)"
      unfolding st2 by (simp add: comp_def if_distrib cong: if_cong)
    have "distinct (map (\<lambda>s. (st_app_id s, st_metric s)) (db_stats ?db2))"
      unfolding keys by (rule dist)
    moreover have "list_all (\<lambda>s. st_value s = Some (event_sum ?db2 (st_app_id s) (st_metric s)))
                     (db_stats ?db2)"
      unfolding st2 list_all_iff sum2
      by (auto simp: stat_has_key_def vals exact)
    moreover have "list_all (\<lambda>e. list_ex (stat_has_key (ev_app_id e) (ev_metric e)) (db_stats ?db2))
                     (db_events ?db2)"
    proof -
      have ex: "list_ex (stat_has_key a' m') (db_stats ?db2) = list_ex (stat_has_key a' m') (db_stats db)"
        for a' m'
        unfolding st2 by (rule list_ex_map_update) (simp add: stat_has_key_def)
      show ?thesis
        unfolding ex ev2 using cov True by (simp add: ev_metric_def)
    qed
    ultimately show ?thesis
      unfolding counters_consistent_def db_batch_createEventStatements
      using nonnull2 by blast
  next
    case False
    have st2: "db_stats ?db2 = db_stats db @
        [\<lparr>st_id = next_rowid (map st_id (db_stats db)), st_app_id = a, st_metric = ?m,
          st_category = c, st_value = Some n, st_last_updated = t\<rparr>]"
      using False by simp
    have zero: "event_sum db a ?m = 0"
      using cov False by (rule event_sum_no_events)
    have fresh: "(a, ?m) \<notin> set (map (\<lambda>s. (st_app_id s, st_metric s)) (db_stats db))"
      using False by (auto simp: list_ex_iff stat_has_key_def)
    have "distinct (map (\<lambda>s. (st_app_id s, st_metric s)) (db_stats ?db2))"
      unfolding st2 using dist fresh by simp
    moreover have "list_all (\<lambda>s. st_value s = Some (event_sum ?db2 (st_app_id s) (st_metric s)))
                     (db_stats ?db2)"
      unfolding st2 list_all_iff sum2
      using fresh zero by (auto simp: vals)
    moreover have "list_all (\<lambda>e. list_ex (stat_has_key (ev_app_id e) (ev_metric e)) (db_stats ?db2))
                     (db_events ?db2)"
      unfolding st2 ev2 using cov
      by (auto simp: list_all_iff list_ex_iff stat_has_key_def ev_metric_def)
    ultimately show ?thesis
      unfolding counters_consistent_def db_batch_createEventStatements
      using nonnull2 by blast
  qed
qed

lemma batch_loop_consistent:
  assumes "batch_loop ts co app_id evs statements results = Inr (statements', results')"
    and "counters_consistent (db_batch db statements)"
    and "list_all (\<lambda>d. resolved_value d \<noteq> None) evs"
    and "abs_total (db_batch db statements) + magnitude evs \<le> 2 ^ 53"
  shows "counters_consistent (db_batch db statements')
         \<and> abs_total (db_batch db statements') = abs_total (db_batch db statements) + magnitude evs"
  using assms
proof (induction evs arbitrary: statements results)
  case Nil
  then show ?case by (simp add: magnitude_def)
next
  case (Cons event rest)
  from Cons.prems(1) obtain event_type where
    et: "td_event_type event = Some event_type" "event_type \<noteq> []"
    by (auto split: option.splits if_splits)
  from Cons.prems(3) obtain n where n: "resolved_value event = Some n"
    by auto
  then have v: "(case td_value event of None \<Rightarrow> Some 1 | Some x \<Rightarrow> x) = Some n"
    by (simp add: resolved_value_def)
  have mag: "magnitude (event # rest) = \<bar>n\<bar> + magnitude rest"
    by (simp add: magnitude_def n number_of_def)
  have rest_nonneg: "0 \<le> magnitude rest"
    unfolding magnitude_def by (rule sum_list_nonneg) auto
  let ?pair = "createEventStatements app_id event_type
                 (or_else (td_category event) (determineCategory event_type))
                 (td_qualifier event) (Some n)
                 (case td_timestamp event of None \<Rightarrow> ts | Some t \<Rightarrow> t)
                 (case td_country event of None \<Rightarrow> co | Some c \<Rightarrow> c)"
  have step: "counters_consistent (db_batch db (statements @ ?pair))"
    unfolding db_batch_append
    using Cons.prems(2) Cons.prems(4) rest_nonneg
    by (intro counters_consistent_pair) (simp_all add: mag)
  have total: "abs_total (db_batch db (statements @ ?pair)) =
                 abs_total (db_batch db statements) + \<bar>n\<bar>"
    unfolding db_batch_append by (simp add: abs_total_pair number_of_def)
  have "counters_consistent (db_batch db statements')
        \<and> abs_total (db_batch db statements') =
            abs_total (db_batch db (statements @ ?pair)) + magnitude rest"
  proof (rule Cons.IH)
    show "batch_loop ts co app_id rest (statements @ ?pair)
            (results @ [\<lparr>res_event_type = event_type, res_qualifier = td_qualifier event,
                         res_metric = metric_key event_type (td_qualifier event),
                         res_category = or_else (td_category event) (determineCategory event_type),
                         res_country = (case td_country event of None \<Rightarrow> co | Some c \<Rightarrow> c)\<rparr>]) =
          Inr (statements', results')"
      using Cons.prems(1) et v by (simp add: Let_def)
    show "counters_consistent (db_batch db (statements @ ?pair))"
      by (rule step)
    show "list_all (\<lambda>d. resolved_value d \<noteq> None) rest"
      using Cons.prems(3) by simp
    show "abs_total (db_batch db (statements @ ?pair)) + magnitude rest \<le> 2 ^ 53"
      using Cons.prems(4) by (simp add: total mag)
  qed
  then show ?case by (simp add: total mag)
qed

text \<open>
  A call keeps the invariant and adds at most the magnitudes of its items to those of
  the log; a call that fails adds nothing.
\<close>

lemma apply_call_consistent:
  assumes "counters_consistent db"
    and "list_all (\<lambda>d. resolved_value d \<noteq> None) (call_items c)"
    and "abs_total db + magnitude (call_items c) \<le> 2 ^ 53"
  shows "counters_consistent (apply_call db c)
         \<and> abs_total (apply_call db c) \<le> abs_total db + magnitude (call_items c)"
proof (cases c)
  case (Record now cf_country app_id data)
  from assms(2) obtain n where n: "resolved_value data = Some n"
    by (auto simp: Record)
  then have v: "(case td_value data of None \<Rightarrow> Some 1 | Some x \<Rightarrow> x) = Some n"
    by (simp add: resolved_value_def)
  have mag: "magnitude (call_items c) = \<bar>n\<bar>"
    by (simp add: Record magnitude_def n number_of_def)
  show ?thesis
  proof (cases "truthy (td_event_type data)")
    case True
    then obtain event_type where et: "td_event_type data = Some event_type" "event_type \<noteq> []"
      by (cases "td_event_type data") auto
    have "apply_call db c =
            db_batch db (createEventStatements app_id event_type
              (or_else (td_category data) (determineCategory event_type)) (td_qualifier data)
              (Some n) (case td_timestamp data of None \<Rightarrow> now | Some t \<Rightarrow> t)
              (case td_country data of None \<Rightarrow> or_null cf_country | Some c \<Rightarrow> c))"
      by (simp add: Record handleTrackEvent_db [OF et] v)
    then show ?thesis
      using assms(1,3) by (simp add: counters_consistent_pair abs_total_pair mag number_of_def)
  next
    case False
    then have "apply_call db c = db"
      by (cases "td_event_type data") (auto simp: Record handleTrackEvent_def Let_def)
    then show ?thesis using assms(1) by (simp add: mag)
  qed
next
  case (RecordBatch now cf_country app_id events)
  have nonneg: "0 \<le> magnitude (call_items c)"
    unfolding magnitude_def by (rule sum_list_nonneg) auto
  show ?thesis
  proof (cases "fst (handleBatchTrackEvents now cf_country db app_id events)")
    case (Inl e)
    then have "apply_call db c = db"
      by (simp add: RecordBatch handleBatchTrackEvents_error_unchanged)
    then show ?thesis using assms(1) nonneg by simp
  next
    case (Inr r)
    then obtain evs statements results where
      events: "events = Some evs"
      and loop: "batch_loop now (or_null cf_country) app_id evs [] [] = Inr (statements, results)"
      and db': "snd (handleBatchTrackEvents now cf_country db app_id events) =
                  db_batch db statements"
      by (auto simp: handleBatchTrackEvents_def split: option.splits if_splits sum.splits)
    have items: "call_items c = evs"
      by (simp add: RecordBatch events)
    have "counters_consistent (db_batch db statements)
          \<and> abs_total (db_batch db statements) = abs_total (db_batch db []) + magnitude evs"
      using loop
    proof (rule batch_loop_consistent)
      show "counters_consistent (db_batch db [])"
        using assms(1) by (simp add: db_batch_def)
      show "list_all (\<lambda>d. resolved_value d \<noteq> None) evs"
        using assms(2) by (simp add: items)
      show "abs_total (db_batch db []) + magnitude evs \<le> 2 ^ 53"
        using assms(3) by (simp add: items db_batch_def)
    qed
    then have "counters_consistent (apply_call db c)
          \<and> abs_total (apply_call db c) = abs_total db + magnitude evs"
      by (simp add: RecordBatch db' db_batch_def)
    then show ?thesis
      unfolding items by simp
  qed
qed

lemma magnitude_append: "magnitude (xs @ ys) = magnitude xs + magnitude ys"
  by (simp add: magnitude_def)

lemma foldl_apply_call_consistent:
  assumes "counters_consistent db"
    and "list_all (\<lambda>d. resolved_value d \<noteq> None) (concat (map call_items calls))"
    and "abs_total db + magnitude (concat (map call_items calls)) \<le> 2 ^ 53"
  shows "counters_consistent (foldl apply_call db calls)"
  using assms
proof (induction calls arbitrary: db)
  case Nil
  then show ?case by simp
next
  case (Cons c calls)
  have nonneg: "0 \<le> magnitude (concat (map call_items calls))"
    unfolding magnitude_def by (rule sum_list_nonneg) auto
  have step: "counters_consistent (apply_call db c)
         \<and> abs_total (apply_call db c) \<le> abs_total db + magnitude (call_items c)"
    using Cons.prems nonneg
    by (intro apply_call_consistent) (simp_all add: magnitude_append)
  have "counters_consistent (foldl apply_call (apply_call db c) calls)"
  proof (rule Cons.IH)
    show "counters_consistent (apply_call db c)"
      using step by simp
    show "list_all (\<lambda>d. resolved_value d \<noteq> None) (concat (map call_items calls))"
      using Cons.prems(2) by simp
    show "abs_total (apply_call db c) + magnitude (concat (map call_items calls)) \<le> 2 ^ 53"
      using step Cons.prems(3) by (simp add: magnitude_append)
  qed
  then show ?case by simp
qed

lemma run_calls_consistent:
  assumes "values_exact calls"
  shows "counters_consistent (run_calls calls)"
  unfolding run_calls_def
proof (rule foldl_apply_call_consistent)
  show "counters_consistent empty_db"
    by (simp add: counters_consistent_def empty_db_def)
  show "list_all (\<lambda>d. resolved_value d \<noteq> None) (concat (map call_items calls))"
    using assms by (simp add: values_exact_def)
  show "abs_total empty_db + magnitude (concat (map call_items calls)) \<le> 2 ^ 53"
    using assms by (simp add: values_exact_def abs_total_def empty_db_def)
qed

lemma no_stat_no_events:
  assumes "counters_consistent db" and "select_stat db a m = None"
  shows "filter (\<lambda>e. ev_app_id e = a \<and> ev_metric e = m) (db_events db) = []"
proof -
  from assms(2) have "\<not> list_ex (stat_has_key a m) (db_stats db)"
    by (simp add: select_stat_def list_ex_find)
  with assms(1) show ?thesis
    by (auto simp: counters_consistent_def filter_empty_conv list_all_iff)
qed

lemma stat_value_event_sum:
  assumes "counters_consistent db" and "select_stat db a m = Some s"
  shows "st_value s = Some (event_sum db a m)"
proof -
  from assms(2) have "s \<in> set (db_stats db)" and "stat_has_key a m s"
    by (auto simp: select_stat_def find_Some_iff)
  with assms(1) show ?thesis
    by (auto simp: counters_consistent_def list_all_iff stat_has_key_def)
qed

text \<open>The sums of doubles of the counterexample.\<close>

lemma bit_length_bounds: "2 ^ k \<le> n \<Longrightarrow> n < 2 ^ Suc k \<Longrightarrow> bit_length n = Suc k"
proof (induction k arbitrary: n)
  case 0
  then have "n = 1" by simp
  then show ?case by (simp add: bit_length.simps [of "Suc 0"] bit_length.simps [of 0])
next
  case (Suc k)
  then have "2 ^ k \<le> n div 2" and "n div 2 < 2 ^ Suc k" and "n \<noteq> 0"
    by auto
  then have "bit_length (n div 2) = Suc k" and "n \<noteq> 0"
    by (simp_all add: Suc.IH)
  then show ?case
    by (subst bit_length.simps) simp
qed

lemma double_add_rounds:
  "sql_add (Some 9007199254740992) (Some 1) = Some 9007199254740992"
proof -
  have "bit_length (nat 9007199254740993) = 54"
    using bit_length_bounds [of 53 "nat 9007199254740993"] by simp
  then show ?thesis
    by (simp add: sql_add_def double_add_def round_double_def Let_def)
qed

lemma sql_add_null: "sql_add a None = None" "sql_add None b = None"
  by (simp_all add: sql_add_def split: option.splits)

text \<open>
  C1, as stated, fails in three ways. The derived metric key of the specification tests
  the qualifier for \<^verbatim>\<open>null\<close>, the code for truthiness: after three installs of values 1,
  10 and 100, the last with the empty qualifier, the counter \<open>install\<close> holds 101 where
  the events with the derived key \<open>install\<close> sum to 1, and the events with the derived
  key \<open>install.\<close> sum to 100 and have no counter. The counter is a sum of doubles: after
  the values \<open>2^53\<close> and 1 it holds \<open>2^53\<close>, the events sum to \<open>2^53 + 1\<close>. And a value that
  is an explicit \<^verbatim>\<open>null\<close> makes the counter NULL: after the values 5 and \<^verbatim>\<open>null\<close> the
  counter is NULL, the events sum to 5.
\<close>

theorem counter_consistency_counterexample:
  "map_option st_value (select_stat (run_calls qualified_installs) ''app1'' ''install'') =
     Some (Some 101)
   \<and> event_sum_spec (run_calls qualified_installs) ''app1'' ''install'' = 1
   \<and> select_stat (run_calls qualified_installs) ''app1'' ''install.'' = None
   \<and> event_sum_spec (run_calls qualified_installs) ''app1'' ''install.'' = 100
   \<and> map_option st_value
       (select_stat
          (run_calls [Record 100 None ''app1'' (track ''credit'' None (Some 9007199254740992) None None),
                      Record 200 None ''app1'' (track ''credit'' None (Some 1) None None)])
          ''app1'' ''credit'') = Some (Some 9007199254740992)
   \<and> event_sum
       (run_calls [Record 100 None ''app1'' (track ''credit'' None (Some 9007199254740992) None None),
                   Record 200 None ''app1'' (track ''credit'' None (Some 1) None None)])
       ''app1'' ''credit'' = 9007199254740993
   \<and> map_option st_value
       (select_stat
          (run_calls [Record 100 None ''app1'' (track ''credit'' None (Some 5) None None),
                      Record 200 None ''app1'' (track_null_value ''credit'')])
          ''app1'' ''credit'') = Some None
   \<and> event_sum
       (run_calls [Record 100 None ''app1'' (track ''credit'' None (Some 5) None None),
                   Record 200 None ''app1'' (track_null_value ''credit'')])
       ''app1'' ''credit'' = 5"
  by (simp add: qualified_installs_def recorder_defs event_sum_def event_sum_spec_def
      ev_metric_def buildMetricKey_spec_def number_of_def track_null_value_def
      double_add_rounds sql_add_null)

text \<open>
  C1, amended. Starting from the empty store, after any sequence of \<open>record\<close> and
  \<open>recordBatch\<close> calls (a failed call changes nothing) in which every value is a number,
  none an explicit \<^verbatim>\<open>null\<close>, and the magnitudes of the values add up to at most \<open>2^53\<close>,
  for every application and metric: the counter of the pair, when there is one, holds
  the sum of the values of the events of that application whose metric key, as the
  code derives it (the event type when the qualifier is \<^verbatim>\<open>null\<close> or empty), is that
  metric; when there is none, no such event exists. There is at most one counter for a
  pair, and no event has the value NULL.
\<close>

theorem counter_consistency:
  assumes "values_exact calls"
  shows "(case select_stat (run_calls calls) app_id metric of
            Some s \<Rightarrow> st_value s = Some (event_sum (run_calls calls) app_id metric)
          | None \<Rightarrow> filter (\<lambda>e. ev_app_id e = app_id \<and> ev_metric e = metric)
                      (db_events (run_calls calls)) = [])
         \<and> distinct (map (\<lambda>s. (st_app_id s, st_metric s)) (db_stats (run_calls calls)))
         \<and> list_all (\<lambda>e. ev_value e \<noteq> None) (db_events (run_calls calls))"
proof -
  have c: "counters_consistent (run_calls calls)"
    using assms by (rule run_calls_consistent)
  then have "distinct (map (\<lambda>s. (st_app_id s, st_metric s)) (db_stats (run_calls calls)))"
    and "list_all (\<lambda>e. ev_value e \<noteq> None) (db_events (run_calls calls))"
    by (simp_all add: counters_consistent_def)
  then show ?thesis
    using no_stat_no_events [OF c] stat_value_event_sum [OF c]
    by (simp split: option.splits)
qed

theorem counter_consistency_witness:
  "values_exact
     [Record 100 None ''app1'' (track ''purchase'' (Some ''premium_upgrade'') (Some 999) None None),
      Record 200 None ''app1'' (track ''purchase'' (Some ''premium_upgrade'') (Some 999) None None)]
   \<and> select_stat
     (run_calls
        [Record 100 None ''app1'' (track ''purchase'' (Some ''premium_upgrade'') (Some 999) None None),
         Record 200 None ''app1'' (track ''purchase'' (Some ''premium_upgrade'') (Some 999) None None)])
     ''app1'' ''purchase.premium_upgrade'' =
     Some \<lparr>st_id = 1, st_app_id = ''app1'', st_metric = ''purchase.premium_upgrade'',
           st_category = ''revenue'', st_value = Some 1998, st_last_updated = 200\<rparr>
   \<and> event_sum
       (run_calls
          [Record 100 None ''app1'' (track ''purchase'' (Some ''premium_upgrade'') (Some 999) None None),
           Record 200 None ''app1'' (track ''purchase'' (Some ''premium_upgrade'') (Some 999) None None)])
       ''app1'' ''purchase.premium_upgrade'' = 1998"
proof -
  have exact: "values_exact
     [Record 100 None ''app1'' (track ''purchase'' (Some ''premium_upgrade'') (Some 999) None None),
      Record 200 None ''app1'' (track ''purchase'' (Some ''premium_upgrade'') (Some 999) None None)]"
    by (simp add: values_exact_def magnitude_def resolved_value_def number_of_def track_def)
  show ?thesis
    using exact counter_consistency
      [OF exact, where app_id = "''app1''" and metric = "''purchase.premium_upgrade''"]
    by (simp add: recorder_defs)
qed

subsection \<open>Splitting a requested metric\<close>

text \<open>
  What \<^verbatim>\<open>metric.split('.', 2)\<close> gives for a metric with a dot: the text before the
  first dot, and the text between the first dot and the second (the text after the
  first dot when there is no second). A metric without a dot is the event type, with
  no qualifier.
\<close>

lemma js_split_takeWhile:
  "js_split sep s =
     takeWhile (\<lambda>c. c \<noteq> sep) s #
       (if sep \<in> set s then js_split sep (tl (dropWhile (\<lambda>c. c \<noteq> sep) s)) else [])"
  by (induction s) auto

lemma js_split_two:
  assumes "sep \<in> set s"
  shows "js_split_limit sep 2 s =
           [takeWhile (\<lambda>c. c \<noteq> sep) s,
            takeWhile (\<lambda>c. c \<noteq> sep) (tl (dropWhile (\<lambda>c. c \<noteq> sep) s))]"
proof -
  have "js_split sep s =
          takeWhile (\<lambda>c. c \<noteq> sep) s # js_split sep (tl (dropWhile (\<lambda>c. c \<noteq> sep) s))"
    using assms by (subst js_split_takeWhile) simp
  also have "js_split sep (tl (dropWhile (\<lambda>c. c \<noteq> sep) s)) =
          takeWhile (\<lambda>c. c \<noteq> sep) (tl (dropWhile (\<lambda>c. c \<noteq> sep) s)) #
            (if sep \<in> set (tl (dropWhile (\<lambda>c. c \<noteq> sep) s))
             then js_split sep (tl (dropWhile (\<lambda>c. c \<noteq> sep) (tl (dropWhile (\<lambda>c. c \<noteq> sep) s))))
             else [])"
    by (rule js_split_takeWhile)
  finally show ?thesis
    by (simp add: js_split_limit_def)
qed

lemma split_metric_dot:
  assumes "CHR ''.'' \<in> set metric"
  shows "split_metric metric =
           (takeWhile (\<lambda>c. c \<noteq> CHR ''.'') metric,
            Some (takeWhile (\<lambda>c. c \<noteq> CHR ''.'')
                    (tl (dropWhile (\<lambda>c. c \<noteq> CHR ''.'') metric))))"
  using assms by (simp add: split_metric_def js_split_two)

lemma split_metric_no_dot:
  "CHR ''.'' \<notin> set metric \<Longrightarrow> split_metric metric = (metric, None)"
  by (simp add: split_metric_def)

text \<open>Unfolding the timeseries handlers on a concrete request; the days of the examples.\<close>

lemmas timeseries_defs =
  handleTimeseriesQuery_def timeseries_of_def comparison_of_def timeGroup_of_def split_metric_def
  js_split_limit_def where_clause_def group_by_time_period_def sql_limit_def sql_sum_def

lemma day_keys:
  "sqlite_strftime ''%Y-%m-%d'' 1741392000 = ''2025-03-08''"
  "sqlite_strftime ''%Y-%m-%d'' 1741478400 = ''2025-03-09''"
  "sqlite_strftime ''%Y-%m-%d'' 1741564800 = ''2025-03-10''"
  "sqlite_strftime ''%Y-%m-%d'' 1741651200 = ''2025-03-11''"
  "sqlite_strftime ''%Y-%m-%d'' 1741737600 = ''2025-03-12''"
  by code_simp+

text \<open>
  C10 at a failing input. The README's own example tracks \<open>update\<close> with the qualifier
  \<open>1.2.0\<close>, which counts under the metric \<open>update.1.2.0\<close>. The timeseries query for
  that metric splits it into \<open>update\<close> and \<open>1\<close>, not \<open>update\<close> and \<open>1.2.0\<close>: it finds
  nothing of the event recorded, and would count an event whose qualifier is \<open>1\<close>.
\<close>

theorem split_drops_rest_of_qualifier:
  "split_metric ''update.1.2.0'' = (''update'', Some ''1'')
   \<and> db_events
       (run_calls [Record 1741392000 None ''app1''
          (track ''update'' (Some ''1.2.0'') None (Some ''lifecycle'') None)]) =
     [\<lparr>ev_id = 1, ev_app_id = ''app1'', ev_event_type = ''update'',
       ev_event_category = ''lifecycle'', ev_qualifier = Some ''1.2.0'', ev_value = Some 1,
       ev_timestamp = 1741392000, ev_country = None\<rparr>]
   \<and> db_stats
       (run_calls [Record 1741392000 None ''app1''
          (track ''update'' (Some ''1.2.0'') None (Some ''lifecycle'') None)]) =
     [\<lparr>st_id = 1, st_app_id = ''app1'', st_metric = ''update.1.2.0'',
       st_category = ''lifecycle'', st_value = Some 1, st_last_updated = 1741392000\<rparr>]
   \<and> handleTimeseriesQuery sqlite_strftime 1741400000
       (run_calls [Record 1741392000 None ''app1''
          (track ''update'' (Some ''1.2.0'') None (Some ''lifecycle'') None)])
       ''app1'' (timeseries_of ''update.1.2.0'' ''day'' 30) =
     Inr \<lparr>ts_app_id = ''app1'', ts_metric = ''update.1.2.0'', ts_period = ''day'',
          ts_from = 0, ts_to = 1741400000, ts_data = []\<rparr>
   \<and> handleTimeseriesQuery sqlite_strftime 1741400000
       (run_calls [Record 1741392000 None ''app1''
          (track ''update'' (Some ''1'') None (Some ''lifecycle'') None)])
       ''app1'' (timeseries_of ''update.1.2.0'' ''day'' 30) =
     Inr \<lparr>ts_app_id = ''app1'', ts_metric = ''update.1.2.0'', ts_period = ''day'',
          ts_from = 0, ts_to = 1741400000,
          ts_data = [\<lparr>dp_time_period = ''2025-03-08'', dp_total = Some 1\<rparr>]\<rparr>"
  by (simp add: recorder_defs timeseries_defs day_keys)

subsection \<open>The buckets of a query\<close>

lemma group_by_time_period_keys:
  "map dp_time_period (group_by_time_period time_period rows) =
     sort (remdups (map (\<lambda>e. time_period (ev_timestamp e)) rows))"
  by (simp add: group_by_time_period_def comp_def)

lemma group_by_time_period_ascending:
  "sorted_wrt (<) (map dp_time_period (group_by_time_period time_period rows))"
  unfolding group_by_time_period_keys by (simp add: strict_sorted_iff)

lemma group_by_time_period_set:
  "set (map dp_time_period (group_by_time_period time_period rows)) =
     (\<lambda>e. time_period (ev_timestamp e)) ` set rows"
  unfolding group_by_time_period_keys by simp

lemma group_by_time_period_total:
  assumes "p \<in> set (group_by_time_period time_period rows)"
  shows "dp_total p =
           sql_sum (map ev_value
             (filter (\<lambda>e. time_period (ev_timestamp e) = dp_time_period p) rows))"
  using assms by (auto simp: group_by_time_period_def)

lemma rev_sql_limit_rev: "rev (sql_limit (int n) (rev xs)) = drop (length xs - n) xs"
  by (simp add: sql_limit_def rev_take)

text \<open>
  C7. A single-metric query with a valid period and the limit \<open>n\<close> (30 when the request
  names none) succeeds. With \<open>buckets\<close> the bucketed result of the query, one row for
  each bucket that has a matching event, strictly ascending in the bucket's text, the
  series returned is the last \<open>n\<close> rows of it in the same ascending order: exactly
  \<open>n\<close> buckets, or all of them when there are fewer. The text of a bucket is a
  fixed-width date, so its order is the order of time.
\<close>

theorem timeseries_latest_buckets:
  assumes "rq_metric rq = Some metric" and "metric \<noteq> []"
    and "timeGroup_of (or_else (rq_period rq) ''day'') = Some timeGroup"
    and "(case rq_limit rq of None \<Rightarrow> 30 | Some l \<Rightarrow> l) = int n"
    and "fromDate = (case rq_from rq of None \<Rightarrow> now - 60 * 60 * 24 * 30 | Some t \<Rightarrow> t)"
    and "toDate = (case rq_to rq of None \<Rightarrow> now | Some t \<Rightarrow> t)"
    and "matching = filter (where_clause app_id (fst (split_metric metric)) fromDate toDate
                              (snd (split_metric metric))) (db_events db)"
    and "buckets = group_by_time_period (strftime timeGroup) matching"
  shows "\<exists>r. handleTimeseriesQuery strftime now db app_id rq = Inr r
           \<and> ts_data r = drop (length buckets - n) buckets
           \<and> length (ts_data r) = min n (length buckets)
           \<and> sorted_wrt (<) (map dp_time_period buckets)
           \<and> set (map dp_time_period buckets) =
               (\<lambda>e. strftime timeGroup (ev_timestamp e)) ` set matching"
proof -
  have "handleTimeseriesQuery strftime now db app_id rq =
          Inr \<lparr>ts_app_id = app_id, ts_metric = metric, ts_period = or_else (rq_period rq) ''day'',
               ts_from = fromDate, ts_to = toDate,
               ts_data = rev (sql_limit (int n) (rev buckets))\<rparr>"
    using assms by (simp add: handleTimeseriesQuery_def Let_def split: prod.splits)
  then show ?thesis
    unfolding rev_sql_limit_rev
    by (simp add: assms(8) group_by_time_period_ascending group_by_time_period_set
        del: set_map)
qed

theorem timeseries_latest_buckets_witness:
  "handleTimeseriesQuery sqlite_strftime 1741800000 (run_calls five_days) ''app1''
     (timeseries_of ''page_view.home'' ''day'' 2) =
     Inr \<lparr>ts_app_id = ''app1'', ts_metric = ''page_view.home'', ts_period = ''day'',
          ts_from = 0, ts_to = 1741800000,
          ts_data = [\<lparr>dp_time_period = ''2025-03-11'', dp_total = Some 3\<rparr>,
                     \<lparr>dp_time_period = ''2025-03-12'', dp_total = Some 1\<rparr>]\<rparr>"
  using timeseries_latest_buckets
    [where rq = "timeseries_of ''page_view.home'' ''day'' 2" and metric = "''page_view.home''"
     and timeGroup = "''%Y-%m-%d''" and n = 2 and now = 1741800000 and app_id = "''app1''"
     and db = "run_calls five_days" and strftime = sqlite_strftime]
  by (simp add: five_days_def recorder_defs timeseries_defs day_keys)

subsection \<open>Queries for a metric without qualifier\<close>

lemma set_rev_sql_limit_rev: "set (rev (sql_limit n (rev xs))) \<subseteq> set xs"
  by (auto simp: sql_limit_def dest: in_set_takeD)

lemma where_clause_no_qualifier:
  "where_clause app_id event_type fromDate toDate None e \<longleftrightarrow>
     ev_app_id e = app_id \<and> ev_event_type e = event_type \<and> ev_qualifier e = None
     \<and> fromDate \<le> ev_timestamp e \<and> ev_timestamp e \<le> toDate"
  by (auto simp: where_clause_def)

text \<open>
  C9. When the requested metric has no dot, and so no qualifier, the events that the
  query sums are those of the application and of the event type that have no qualifier
  (an absent, \<^verbatim>\<open>null\<close> one) and a timestamp in the range, and no others: the result on a
  log is the result on these events alone, each bucket returned has one of these
  events, and its total is the sum of the values of these events in the bucket. In
  particular the result is that on the log without the events whose qualifier is not
  \<^verbatim>\<open>null\<close>. The same holds for the query that the comparison handler runs for each of
  its metrics. An event recorded with the empty qualifier counts for the counter
  \<open>install\<close> but not in the series of \<open>install\<close>, its qualifier being the empty string
  and not \<^verbatim>\<open>null\<close>.
\<close>

theorem qualifierless_query_excludes_qualified:
  assumes "rq_metric rq = Some metric" and "CHR ''.'' \<notin> set metric"
    and "fromDate = (case rq_from rq of None \<Rightarrow> now - 60 * 60 * 24 * 30 | Some t \<Rightarrow> t)"
    and "toDate = (case rq_to rq of None \<Rightarrow> now | Some t \<Rightarrow> t)"
    and "selected =
           filter (\<lambda>e. ev_app_id e = app_id \<and> ev_event_type e = metric \<and> ev_qualifier e = None
                        \<and> fromDate \<le> ev_timestamp e \<and> ev_timestamp e \<le> toDate)
             (db_events db)"
  shows "handleTimeseriesQuery strftime now db app_id rq =
           handleTimeseriesQuery strftime now (db\<lparr>db_events := selected\<rparr>) app_id rq
         \<and> handleTimeseriesQuery strftime now db app_id rq =
           handleTimeseriesQuery strftime now
             (db\<lparr>db_events := filter (\<lambda>e. ev_qualifier e = None) (db_events db)\<rparr>)
             app_id rq
         \<and> (\<forall>r timeGroup p.
               handleTimeseriesQuery strftime now db app_id rq = Inr r
               \<longrightarrow> timeGroup_of (or_else (rq_period rq) ''day'') = Some timeGroup
               \<longrightarrow> p \<in> set (ts_data r)
               \<longrightarrow> (\<exists>e \<in> set selected. strftime timeGroup (ev_timestamp e) = dp_time_period p)
                   \<and> dp_total p =
                       sql_sum (map ev_value
                         (filter (\<lambda>e. strftime timeGroup (ev_timestamp e) = dp_time_period p)
                            selected)))
         \<and> metric_results time_period db app_id from_ts to_ts metric =
           group_by_time_period time_period
             (filter (\<lambda>e. ev_app_id e = app_id \<and> ev_event_type e = metric
                          \<and> ev_qualifier e = None
                          \<and> from_ts \<le> ev_timestamp e \<and> ev_timestamp e \<le> to_ts)
                (db_events db))
         \<and> metric_results time_period db app_id from_ts to_ts metric =
           metric_results time_period
             (db\<lparr>db_events := filter (\<lambda>e. ev_qualifier e = None) (db_events db)\<rparr>)
             app_id from_ts to_ts metric"
proof -
  have split: "split_metric metric = (metric, None)"
    using assms(2) by (simp add: split_metric_def)
  have sel: "filter (where_clause app_id metric fromDate toDate None) (db_events db) = selected"
    unfolding assms(5) by (rule filter_cong) (simp_all add: where_clause_no_qualifier)
  have idem: "filter (where_clause app_id metric fromDate toDate None) selected = selected"
    unfolding assms(5) by (simp add: where_clause_no_qualifier cong: conj_cong)
  have null: "filter (where_clause a et f t None) (filter (\<lambda>e. ev_qualifier e = None) evs) =
              filter (where_clause a et f t None) evs" for a et f t evs
    unfolding filter_filter by (rule filter_cong) (auto simp: where_clause_def)
  have call: "handleTimeseriesQuery strftime now d app_id rq =
      (if metric = [] then Inl (ErrorResponse ''Missing metric parameter'' 400)
       else case timeGroup_of (or_else (rq_period rq) ''day'') of
              None \<Rightarrow> Inl (ErrorResponse ''Invalid period parameter'' 400)
            | Some timeGroup \<Rightarrow>
                Inr \<lparr>ts_app_id = app_id, ts_metric = metric,
                     ts_period = or_else (rq_period rq) ''day'',
                     ts_from = fromDate, ts_to = toDate,
                     ts_data = rev (sql_limit (case rq_limit rq of None \<Rightarrow> 30 | Some n \<Rightarrow> n)
                       (rev (group_by_time_period (strftime timeGroup)
                          (filter (where_clause app_id metric fromDate toDate None)
                             (db_events d)))))\<rparr>)" for d
    using assms(1)
    by (simp add: handleTimeseriesQuery_def split assms(3,4) Let_def split: option.splits
        del: filter_filter)
  have first: "handleTimeseriesQuery strftime now db app_id rq =
           handleTimeseriesQuery strftime now (db\<lparr>db_events := selected\<rparr>) app_id rq"
    unfolding call by (simp add: sel idem split: option.splits del: filter_filter)
  have second: "handleTimeseriesQuery strftime now db app_id rq =
           handleTimeseriesQuery strftime now
             (db\<lparr>db_events := filter (\<lambda>e. ev_qualifier e = None) (db_events db)\<rparr>)
             app_id rq"
    unfolding call by (simp add: null split: option.splits del: filter_filter)
  have third: "(\<exists>e \<in> set selected. strftime timeGroup (ev_timestamp e) = dp_time_period p)
        \<and> dp_total p =
            sql_sum (map ev_value
              (filter (\<lambda>e. strftime timeGroup (ev_timestamp e) = dp_time_period p) selected))"
    if r: "handleTimeseriesQuery strftime now db app_id rq = Inr r"
      and tg: "timeGroup_of (or_else (rq_period rq) ''day'') = Some timeGroup"
      and p: "p \<in> set (ts_data r)"
    for r timeGroup p
  proof -
    from r tg have "ts_data r =
        rev (sql_limit (case rq_limit rq of None \<Rightarrow> 30 | Some n \<Rightarrow> n)
          (rev (group_by_time_period (strftime timeGroup) selected)))"
      unfolding call sel by (auto split: if_splits)
    with p have p': "p \<in> set (group_by_time_period (strftime timeGroup) selected)"
      using set_rev_sql_limit_rev by fastforce
    then have "dp_time_period p \<in>
        set (map dp_time_period (group_by_time_period (strftime timeGroup) selected))"
      by simp
    then have "dp_time_period p \<in> (\<lambda>e. strftime timeGroup (ev_timestamp e)) ` set selected"
      unfolding group_by_time_period_set .
    then have "\<exists>e \<in> set selected. strftime timeGroup (ev_timestamp e) = dp_time_period p"
      by auto
    with p' show ?thesis
      by (simp add: group_by_time_period_total)
  qed
  have fourth: "metric_results time_period db app_id from_ts to_ts metric =
           group_by_time_period time_period
             (filter (\<lambda>e. ev_app_id e = app_id \<and> ev_event_type e = metric
                          \<and> ev_qualifier e = None
                          \<and> from_ts \<le> ev_timestamp e \<and> ev_timestamp e \<le> to_ts)
                (db_events db))"
    by (simp add: metric_results_def split where_clause_no_qualifier [abs_def])
  have fifth: "metric_results time_period db app_id from_ts to_ts metric =
           metric_results time_period
             (db\<lparr>db_events := filter (\<lambda>e. ev_qualifier e = None) (db_events db)\<rparr>)
             app_id from_ts to_ts metric"
    by (simp add: metric_results_def split null del: filter_filter)
  from first second third fourth fifth show ?thesis
    by blast
qed

lemma installs_days:
  "sqlite_strftime ''%Y-%m-%d'' 1741305600 = ''2025-03-07''"
  by code_simp

theorem qualifierless_query_witness:
  "handleTimeseriesQuery sqlite_strftime 1741800000 (run_calls installs_of_two_apps) ''app1''
     install_request =
     Inr \<lparr>ts_app_id = ''app1'', ts_metric = ''install'', ts_period = ''day'',
          ts_from = 1741392000, ts_to = 1741564799,
          ts_data = [\<lparr>dp_time_period = ''2025-03-08'', dp_total = Some 1\<rparr>,
                     \<lparr>dp_time_period = ''2025-03-09'', dp_total = Some 2\<rparr>]\<rparr>
   \<and> map ev_value
       (filter (\<lambda>e. ev_app_id e = ''app1'' \<and> ev_event_type e = ''install''
                    \<and> ev_qualifier e = None
                    \<and> 1741392000 \<le> ev_timestamp e \<and> ev_timestamp e \<le> 1741564799)
          (db_events (run_calls installs_of_two_apps))) = [Some 1, Some 2]
   \<and> map ev_value (db_events (run_calls installs_of_two_apps)) =
       [Some 1, Some 10, Some 100, Some 1000, Some 10000, Some 100000, Some 1000000, Some 2]
   \<and> map st_value (db_stats (run_calls qualified_installs)) = [Some 101, Some 10]"
  using qualifierless_query_excludes_qualified
    [where metric = "''install''" and rq = install_request
     and strftime = sqlite_strftime and now = 1741800000 and app_id = "''app1''"
     and db = "run_calls installs_of_two_apps", OF _ _ refl refl refl]
  by (simp add: installs_of_two_apps_def install_request_def qualified_installs_def
      recorder_defs timeseries_defs day_keys installs_days)

subsection \<open>The comparison of metrics\<close>

lemma js_slice_last: "1 \<le> n \<Longrightarrow> js_slice (- int n) xs = drop (length xs - n) xs"
  by (auto simp: js_slice_def Let_def max_def nat_diff_distrib' )

lemma map_of_foldl_update:
  "map_of (foldl (\<lambda>results metric. AList.update metric (f metric) results) acc metrics) m =
     (if m \<in> set metrics then Some (f m) else map_of acc m)"
  by (induction metrics arbitrary: acc) (simp_all add: update_conv')

lemma distinct_foldl_update:
  "distinct (map fst acc) \<Longrightarrow>
   distinct (map fst (foldl (\<lambda>results metric. AList.update metric (f metric) results) acc metrics))"
  by (induction metrics arbitrary: acc) (simp_all add: distinct_update)

lemma results_entries:
  assumes "(m, rows) \<in> set (foldl (\<lambda>results metric. AList.update metric (f metric) results) [] metrics)"
  shows "m \<in> set metrics \<and> rows = f m"
proof -
  let ?r = "foldl (\<lambda>results metric. AList.update metric (f metric) results) [] metrics"
  have d: "distinct (map fst ?r)" by (rule distinct_foldl_update) simp
  from assms d have "map_of ?r m = Some rows" by simp
  then show ?thesis
    by (simp add: map_of_foldl_update split: if_splits)
qed

lemma map_of_combine_point:
  assumes "distinct (map fst results)"
  shows "map_of (foldl (\<lambda>dataPoint (metric, rows). AList.update metric (g rows) dataPoint)
                   init results) key =
           (case map_of results key of Some rows \<Rightarrow> Some (g rows) | None \<Rightarrow> map_of init key)"
  using assms
proof (induction results arbitrary: init)
  case Nil
  then show ?case by simp
next
  case (Cons entry rest)
  obtain m rows where entry: "entry = (m, rows)" by (cases entry)
  from Cons.prems have "m \<notin> fst ` set rest" and "distinct (map fst rest)"
    by (simp_all add: entry)
  then have "map_of rest m = None" and "distinct (map fst rest)"
    by (simp_all add: map_of_eq_None_iff)
  then show ?case
    by (simp add: entry Cons.IH update_conv' split: option.splits)
qed

lemma set_foldl_set_add:
  "set (foldl (\<lambda>acc dataPoint. set_add (f dataPoint) acc) acc rows) = set acc \<union> f ` set rows"
  by (induction rows arbitrary: acc) (auto simp: set_add_def)

lemma distinct_foldl_set_add:
  "distinct acc \<Longrightarrow> distinct (foldl (\<lambda>acc dataPoint. set_add (f dataPoint) acc) acc rows)"
  by (induction rows arbitrary: acc) (simp_all add: set_add_def)

lemma set_allTimePeriods:
  "set (foldl (\<lambda>acc (metric, rows). foldl (\<lambda>acc dataPoint. set_add (f dataPoint) acc) acc rows)
          acc results) =
     set acc \<union> (\<Union>entry \<in> set results. f ` set (snd entry))"
  by (induction results arbitrary: acc) (auto simp: set_foldl_set_add split: prod.splits)

lemma distinct_allTimePeriods:
  "distinct acc \<Longrightarrow>
   distinct (foldl (\<lambda>acc (metric, rows). foldl (\<lambda>acc dataPoint. set_add (f dataPoint) acc) acc rows)
               acc results)"
  by (induction results arbitrary: acc) (simp_all add: distinct_foldl_set_add split: prod.splits)

lemma sort_distinct_sorted_list_of_set:
  "distinct xs \<Longrightarrow> sort xs = sorted_list_of_set (set xs)"
  by (simp add: sorted_list_of_set_sort_remdups distinct_remdups_id)

lemma results_time_periods:
  "(\<Union>entry \<in> set (foldl (\<lambda>results metric. AList.update metric (series metric) results)
                          [] metrics). f ` set (snd entry)) =
     (\<Union>m \<in> set metrics. f ` set (series m))"
proof -
  let ?results = "foldl (\<lambda>results metric. AList.update metric (series metric) results) [] metrics"
  have in_results: "(m, series m) \<in> set ?results" if "m \<in> set metrics" for m
  proof -
    from that have "map_of ?results m = Some (series m)"
      by (simp add: map_of_foldl_update)
    then show ?thesis by (rule map_of_SomeD)
  qed
  show ?thesis
  proof (intro equalityI subsetI)
    fix x assume "x \<in> (\<Union>entry \<in> set ?results. f ` set (snd entry))"
    then obtain m rows where e: "(m, rows) \<in> set ?results" and x: "x \<in> f ` set rows"
      by auto
    from e have "m \<in> set metrics \<and> rows = series m" by (rule results_entries)
    with x show "x \<in> (\<Union>m \<in> set metrics. f ` set (series m))" by blast
  next
    fix x assume "x \<in> (\<Union>m \<in> set metrics. f ` set (series m))"
    then obtain m where m: "m \<in> set metrics" and x: "x \<in> f ` set (series m)"
      by blast
    from m have "(m, series m) \<in> set ?results" by (rule in_results)
    with x show "x \<in> (\<Union>entry \<in> set ?results. f ` set (snd entry))"
      by (intro UN_I [where a = "(m, series m)"]) simp_all
  qed
qed

lemma foldl_results_assign:
  assumes "''__proto__'' \<notin> set metrics"
  shows "foldl (\<lambda>results metric. results_assign metric (f metric) results) r metrics =
           r\<lparr>ro_own := foldl (\<lambda>results metric. AList.update metric (f metric) results)
                           (ro_own r) metrics\<rparr>"
  using assms by (induction metrics arbitrary: r) (auto simp: results_assign_def)

text \<open>
  The comparison handler on a request that passes its checks and names no metric
  \<^verbatim>\<open>__proto__\<close>; a request with no metric or with more than five is refused.
\<close>

lemma handleComparisonQuery_valid:
  assumes "rq_metrics rq = Some metricsParam" and "metricsParam \<noteq> []"
    and "metrics = filter (\<lambda>m. m \<noteq> []) (map trim (js_split CHR '','' metricsParam))"
    and "1 \<le> length metrics" and "length metrics \<le> 5"
    and "timeGroup_of (or_else (rq_period rq) ''day'') = Some timeGroup"
    and "limit = (case rq_limit rq of None \<Rightarrow> 30 | Some l \<Rightarrow> l)"
    and "fromDate = (case rq_from rq of None \<Rightarrow> now - 60 * 60 * 24 * 30 | Some t \<Rightarrow> t)"
    and "toDate = (case rq_to rq of None \<Rightarrow> now | Some t \<Rightarrow> t)"
    and "series = metric_results (strftime timeGroup) db app_id fromDate toDate"
    and "results = foldl (\<lambda>results metric. AList.update metric (series metric) results) [] metrics"
    and "allTimePeriods =
           foldl (\<lambda>acc (metric, rows).
                    foldl (\<lambda>acc dataPoint. set_add (dp_time_period dataPoint) acc) acc rows)
                 [] results"
    and "''__proto__'' \<notin> set metrics"
  shows "handleComparisonQuery strftime now db app_id rq =
          Inr \<lparr>cr_app_id = app_id, cr_metrics = metrics,
               cr_period = or_else (rq_period rq) ''day'', cr_from = fromDate, cr_to = toDate,
               cr_data = map (combine_point results) (js_slice (- limit) (sort allTimePeriods))\<rparr>"
proof -
  have ne: "(metricsParam = []) = False"
    using assms(2) by simp
  have "(length metrics < 1 \<or> length metrics > 5) = False"
    using assms(4,5) by auto
  note range = this [unfolded assms(3)]
  have "foldl (\<lambda>results metric. results_assign metric (series metric) results)
          \<lparr>ro_own = [], ro_proto = None\<rparr> metrics = \<lparr>ro_own = results, ro_proto = None\<rparr>"
    unfolding assms(11) foldl_results_assign [OF assms(13)] by simp
  note res = this [unfolded assms(11) assms(10) assms(8,9) assms(3)]
  have inherited: "(inherited_keys \<lparr>ro_own = own, ro_proto = None\<rparr> \<noteq> []) = False" for own
    by (simp add: inherited_keys_def)
  show ?thesis
    unfolding assms(12) assms(11) assms(10) assms(7-9) assms(3)
    by (simp only: handleComparisonQuery_def assms(1) option.case ne if_False Let_def range
        assms(6) res inherited results_object.select_convs)
qed

lemma comparison_metric_count:
  assumes "rq_metrics rq = Some metricsParam" and "metricsParam \<noteq> []"
    and "metrics = filter (\<lambda>m. m \<noteq> []) (map trim (js_split CHR '','' metricsParam))"
    and "length metrics < 1 \<or> 5 < length metrics"
  shows "handleComparisonQuery strftime now db app_id rq =
           Inl (ErrorResponse ''Please provide between 1 and 5 metrics to compare'' 400)"
proof -
  have ne: "(metricsParam = []) = False"
    using assms(2) by simp
  have "(length metrics < 1 \<or> length metrics > 5) = True"
    using assms(4) by auto
  note range = this [unfolded assms(3)]
  show ?thesis
    by (simp only: handleComparisonQuery_def assms(1) option.case ne if_False if_True Let_def
        range)
qed

lemma map_of_combine_point_results:
  "map_of (combine_point
             (foldl (\<lambda>results metric. AList.update metric (series metric) results) [] metrics)
             period) =
     dense_point metrics series period"
proof
  fix key
  let ?results = "foldl (\<lambda>results metric. AList.update metric (series metric) results) [] metrics"
  have "distinct (map fst ?results)"
    by (rule distinct_foldl_update) simp
  then have "map_of (combine_point ?results period) key =
          (case map_of ?results key of
             Some rows \<Rightarrow> Some (bucket_value rows period)
           | None \<Rightarrow> map_of [(''time_period'', JStr period)] key)"
    unfolding combine_point_def bucket_value_def
    by (subst map_of_combine_point [symmetric]) (simp_all add: option.case_distrib cong: option.case_cong)
  then show "map_of (combine_point ?results period) key = dense_point metrics series period key"
    by (simp add: map_of_foldl_update dense_point_def)
qed

text \<open>
  For a limit of at least 1 and metrics other than \<^verbatim>\<open>__proto__\<close> the comparison is the
  dense table: the buckets are the sorted union of the buckets of all requested metrics,
  cut to the last \<open>n\<close>, and each data point read as a map is the dense data point of its
  bucket.
\<close>

lemma comparison_dense_table:
  assumes "rq_metrics rq = Some metricsParam" and "metricsParam \<noteq> []"
    and "metrics = filter (\<lambda>m. m \<noteq> []) (map trim (js_split CHR '','' metricsParam))"
    and "1 \<le> length metrics" and "length metrics \<le> 5"
    and "timeGroup_of (or_else (rq_period rq) ''day'') = Some timeGroup"
    and "(case rq_limit rq of None \<Rightarrow> 30 | Some l \<Rightarrow> l) = int n" and "1 \<le> n"
    and "fromDate = (case rq_from rq of None \<Rightarrow> now - 60 * 60 * 24 * 30 | Some t \<Rightarrow> t)"
    and "toDate = (case rq_to rq of None \<Rightarrow> now | Some t \<Rightarrow> t)"
    and "series = metric_results (strftime timeGroup) db app_id fromDate toDate"
    and "periods = sorted_list_of_set (\<Union>m \<in> set metrics. dp_time_period ` set (series m))"
    and "''__proto__'' \<notin> set metrics"
  shows "\<exists>r. handleComparisonQuery strftime now db app_id rq = Inr r
           \<and> cr_metrics r = metrics
           \<and> map map_of (cr_data r) =
               map (dense_point metrics series) (drop (length periods - n) periods)"
proof -
  define results where
    "results = foldl (\<lambda>results metric. AList.update metric (series metric) results) [] metrics"
  define allTimePeriods where
    "allTimePeriods =
       foldl (\<lambda>acc (metric, rows).
                foldl (\<lambda>acc dataPoint. set_add (dp_time_period dataPoint) acc) acc rows)
             [] results"
  have call: "handleComparisonQuery strftime now db app_id rq =
          Inr \<lparr>cr_app_id = app_id, cr_metrics = metrics,
               cr_period = or_else (rq_period rq) ''day'', cr_from = fromDate, cr_to = toDate,
               cr_data = map (combine_point results) (js_slice (- int n) (sort allTimePeriods))\<rparr>"
    using assms(1-6) assms(7) [symmetric] assms(9-11) results_def allTimePeriods_def assms(13)
    by (rule handleComparisonQuery_valid)
  have "distinct allTimePeriods"
    unfolding allTimePeriods_def by (rule distinct_allTimePeriods) simp
  then have "sort allTimePeriods = sorted_list_of_set (set allTimePeriods)"
    by (rule sort_distinct_sorted_list_of_set)
  also have "set allTimePeriods = (\<Union>m \<in> set metrics. dp_time_period ` set (series m))"
    unfolding allTimePeriods_def results_def
    by (simp add: set_allTimePeriods results_time_periods)
  finally have periods: "sort allTimePeriods = periods"
    by (simp add: assms(12))
  have point: "map_of (combine_point results p) = dense_point metrics series p" for p
    unfolding results_def by (rule map_of_combine_point_results)
  show ?thesis
    unfolding call periods js_slice_last [OF assms(8)]
    by (simp add: point comp_def)
qed

lemma two_metrics_db:
  "run_calls two_metrics =
     \<lparr>db_events =
        [\<lparr>ev_id = 1, ev_app_id = ''app1'', ev_event_type = ''page_view'',
          ev_event_category = ''engagement'', ev_qualifier = Some ''home'', ev_value = Some 1,
          ev_timestamp = 1741392000, ev_country = None\<rparr>,
         \<lparr>ev_id = 2, ev_app_id = ''app1'', ev_event_type = ''page_view'',
          ev_event_category = ''engagement'', ev_qualifier = Some ''home'', ev_value = Some 4,
          ev_timestamp = 1741478400, ev_country = None\<rparr>,
         \<lparr>ev_id = 3, ev_app_id = ''app1'', ev_event_type = ''signup'',
          ev_event_category = ''general'', ev_qualifier = None, ev_value = Some 1,
          ev_timestamp = 1741478400, ev_country = None\<rparr>,
         \<lparr>ev_id = 4, ev_app_id = ''app1'', ev_event_type = ''signup'',
          ev_event_category = ''general'', ev_qualifier = None, ev_value = Some 2,
          ev_timestamp = 1741564800, ev_country = None\<rparr>],
      db_stats =
        [\<lparr>st_id = 1, st_app_id = ''app1'', st_metric = ''page_view.home'',
          st_category = ''engagement'', st_value = Some 5, st_last_updated = 1741478400\<rparr>,
         \<lparr>st_id = 2, st_app_id = ''app1'', st_metric = ''signup'',
          st_category = ''general'', st_value = Some 3, st_last_updated = 1741564800\<rparr>]\<rparr>"
  by (simp add: two_metrics_def recorder_defs)

lemma two_metrics_page_view: "metric_results (sqlite_strftime ''%Y-%m-%d'') (run_calls two_metrics) ''app1'' 0 1741800000 ''page_view.home''
  = [\<lparr>dp_time_period = ''2025-03-08'', dp_total = Some 1\<rparr>, \<lparr>dp_time_period = ''2025-03-09'', dp_total = Some 4\<rparr>]"
  by (simp add: two_metrics_db metric_results_def timeseries_defs Let_def day_keys)

lemma two_metrics_signup: "metric_results (sqlite_strftime ''%Y-%m-%d'') (run_calls two_metrics) ''app1'' 0 1741800000 ''signup''
  = [\<lparr>dp_time_period = ''2025-03-09'', dp_total = Some 1\<rparr>, \<lparr>dp_time_period = ''2025-03-10'', dp_total = Some 2\<rparr>]"
  by (simp add: two_metrics_db metric_results_def timeseries_defs Let_def day_keys)

lemma trim_examples:
  "trim ''page_view.home'' = ''page_view.home''"
  "trim '' signup'' = ''signup''"
  by (simp_all add: trim_def is_space_def)

text \<open>
  A metric named \<^verbatim>\<open>__proto__\<close>: once an event of that type is recorded, the comparison
  that names it fails.
\<close>

lemma comparison_proto_key:
  "handleComparisonQuery sqlite_strftime 1741800000
     (run_calls [Record 1741392000 None ''app1'' (track ''__proto__'' None None None None)])
     ''app1'' (comparison_of ''__proto__'' ''day'' 30) =
     Inl (ErrorResponse ''Failed to retrieve comparison data'' 500)"
  by (simp add: handleComparisonQuery_def comparison_of_def trim_def is_space_def
      metric_results_def timeseries_defs recorder_defs day_keys results_assign_def
      inherited_keys_def index_key.simps [of 0] Let_def)

text \<open>
  C8 at a failing input. With the first metric in the buckets of 8 and 9 March and the
  second in those of 9 and 10 March, the comparison has three buckets, each with a
  value for both metrics and 0 where a metric has no event, and the limit 2 keeps the
  last two. With the limit 0 the comparison returns all three buckets, not none:
  \<^verbatim>\<open>sortedTimePeriods.slice(-limit)\<close> is \<^verbatim>\<open>slice(0)\<close>, the whole array. The
  single-metric query with the limit 0 returns no bucket.
\<close>

theorem comparison_limit_zero:
  "map_sum id cr_data
     (handleComparisonQuery sqlite_strftime 1741800000 (run_calls two_metrics) ''app1''
        (comparison_of ''page_view.home, signup'' ''day'' 30)) =
     Inr [[(''time_period'', JStr ''2025-03-08''), (''page_view.home'', JNum 1), (''signup'', JNum 0)],
          [(''time_period'', JStr ''2025-03-09''), (''page_view.home'', JNum 4), (''signup'', JNum 1)],
          [(''time_period'', JStr ''2025-03-10''), (''page_view.home'', JNum 0), (''signup'', JNum 2)]]
   \<and> map_sum id cr_data
     (handleComparisonQuery sqlite_strftime 1741800000 (run_calls two_metrics) ''app1''
        (comparison_of ''page_view.home, signup'' ''day'' 2)) =
     Inr [[(''time_period'', JStr ''2025-03-09''), (''page_view.home'', JNum 4), (''signup'', JNum 1)],
          [(''time_period'', JStr ''2025-03-10''), (''page_view.home'', JNum 0), (''signup'', JNum 2)]]
   \<and> map_sum id cr_data
     (handleComparisonQuery sqlite_strftime 1741800000 (run_calls two_metrics) ''app1''
        (comparison_of ''page_view.home, signup'' ''day'' 0)) =
     Inr [[(''time_period'', JStr ''2025-03-08''), (''page_view.home'', JNum 1), (''signup'', JNum 0)],
          [(''time_period'', JStr ''2025-03-09''), (''page_view.home'', JNum 4), (''signup'', JNum 1)],
          [(''time_period'', JStr ''2025-03-10''), (''page_view.home'', JNum 0), (''signup'', JNum 2)]]
   \<and> map_sum id ts_data
     (handleTimeseriesQuery sqlite_strftime 1741800000 (run_calls two_metrics) ''app1''
        (timeseries_of ''page_view.home'' ''day'' 0)) = Inr []"
proof -
  note defs = handleComparisonQuery_def comparison_of_def trim_examples two_metrics_page_view two_metrics_signup
    timeGroup_of_def
    or_else_def Let_def combine_point_def set_add_def js_slice_def results_assign_def
    inherited_keys_def
  have "map_sum id ts_data
     (handleTimeseriesQuery sqlite_strftime 1741800000 (run_calls two_metrics) ''app1''
        (timeseries_of ''page_view.home'' ''day'' 0)) = Inr []"
    by (simp add: handleTimeseriesQuery_def timeseries_of_def timeGroup_of_def or_else_def
        sql_limit_def Let_def split: prod.splits)
  then show ?thesis
    by (simp add: defs)
qed

end
